theory Spec2Isabelle
  imports Complex_Main "HOL-Library.Sublist"
begin

section \<open>The AFK guard of \<^verbatim>\<open>utils/afk-guard.js\<close>\<close>

text \<open>
  The module has three classes: \<^verbatim>\<open>ActivityTracker\<close> (inactivity timers fed by
  activity events), \<^verbatim>\<open>SessionManager\<close> (lock state, blanking and restoring of
  sensitive DOM content) and \<^verbatim>\<open>AFKGuard\<close> (wires the two through event listeners).
  Each method becomes a function from the object's state (and the part of the process
  globals it touches) to the new state and the list of effects it produced, in order.
  \<^verbatim>\<open>Date.now()\<close> is the parameter \<open>now\<close> of an operation (milliseconds, an
  integer); \<^verbatim>\<open>Math.random()\<close> is an oracle carried by the window, and so is what the
  host's DOM gives back when a property that was assigned is read again.
\<close>

subsection \<open>Events and effects\<close>

text \<open>The events the three emitters emit, with their payloads.\<close>

datatype emission =
    TrackingStarted
  | TrackingStopped
  | ActivityDetected string int
  | InactivityWarning int int
  | InactivityTimeout
  | VisibilityHidden
  | VisibilityVisible
  | FocusChange bool
  | MemoryCleared
  | SessionLocked int
  | SessionUnlocked int int string
  | UnlockFailed string
  | AfkGuardStarted
  | AfkGuardStopped

text \<open>An effect is an \<^verbatim>\<open>emit\<close> or a call of a function of \<^verbatim>\<open>window.api\<close>.\<close>

datatype effect = Emit emission | ApiCall string

datatype js_error = TypeError

subsection \<open>Process environment\<close>

text \<open>
  The variables of \<^verbatim>\<open>process.env\<close> the module reads. The two durations are read
  through \<^verbatim>\<open>parseInt\<close>: \<open>None\<close> stands for \<^verbatim>\<open>NaN\<close> (unset or not a number).
\<close>

record process_env =
  AFK_TIMEOUT_MINUTES :: "int option"
  AFK_WARNING_MINUTES :: "int option"
  AFK_ENABLED :: "string option"
  AFK_UNLOCK_METHOD :: "string option"
  AFK_UNLOCK_PASSWORD :: "string option"

text \<open>\<^verbatim>\<open>a || b\<close> on strings and numbers: the empty string, 0 and \<^verbatim>\<open>NaN\<close>/\<^verbatim>\<open>undefined\<close> are falsy.\<close>

definition truthyString :: "string option \<Rightarrow> string option" where
  "truthyString s = (case s of None \<Rightarrow> None | Some x \<Rightarrow> if x = [] then None else Some x)"

definition truthyNumber :: "int option \<Rightarrow> int option" where
  "truthyNumber n = (case n of None \<Rightarrow> None | Some x \<Rightarrow> if x = 0 then None else Some x)"

subsection \<open>The document\<close>

text \<open>
  An element of the page, with the properties the module reads or writes. The document is
  flat: the protected elements are not nested in one another, so that writing the markup of
  one neither detaches another nor changes what another reads. \<open>className\<close> is the
  \<^verbatim>\<open>class\<close> attribute as it stands and \<open>classList\<close> its tokens; \<open>val\<close> is
  \<^verbatim>\<open>element.value || ''\<close> (the empty string for an element without a value);
  \<open>hasParentNode\<close> says that \<^verbatim>\<open>element.parentNode\<close> is not null, which for this flat
  document is being part of the document.
\<close>

record element =
  tagName :: string
  className :: string
  classList :: "string list"
  dataSensitive :: bool
  typeAttr :: string
  innerHTML :: string
  val :: string
  textContent :: string
  hasParentNode :: bool

text \<open>
  \<^verbatim>\<open>classList.add\<close> and \<^verbatim>\<open>classList.remove\<close> change the token set and then write
  the \<^verbatim>\<open>class\<close> attribute anew: the tokens, joined by single spaces.
\<close>

definition classList_add :: "string \<Rightarrow> string list \<Rightarrow> string list" where
  "classList_add c cs = (if c \<in> set cs then cs else cs @ [c])"

definition classList_remove :: "string \<Rightarrow> string list \<Rightarrow> string list" where
  "classList_remove c cs = filter (\<lambda>x. x \<noteq> c) cs"

fun joinWith :: "string \<Rightarrow> string list \<Rightarrow> string" where
  "joinWith sep [] = []"
| "joinWith sep [x] = x"
| "joinWith sep (x # y # ys) = x @ sep @ joinWith sep (y # ys)"

definition addClass :: "string \<Rightarrow> element \<Rightarrow> element" where
  "addClass c e =
     e\<lparr>classList := classList_add c (classList e),
       className := joinWith '' '' (classList_add c (classList e))\<rparr>"

definition removeClass :: "string \<Rightarrow> element \<Rightarrow> element" where
  "removeClass c e =
     e\<lparr>classList := classList_remove c (classList e),
       className := joinWith '' '' (classList_remove c (classList e))\<rparr>"

text \<open>The lock screen overlay \<^verbatim>\<open>#afk-lock-screen\<close>: its \<^verbatim>\<open>style.display\<close> and classes.\<close>

record lock_screen =
  display :: string
  overlayClasses :: "string list"

text \<open>
  The globals of a renderer process. \<open>elements\<close> is the store of elements, an element
  reference is its index; \<open>body\<close> is the class list of \<^verbatim>\<open>document.body\<close>, \<open>None\<close>
  when the body is null; \<open>api\<close> lists the functions \<^verbatim>\<open>window.api\<close> provides;
  \<open>searchCache\<close> and \<open>apiCache\<close> are the optional global caches (their keys);
  \<open>mathRandom k\<close> is what \<^verbatim>\<open>Math.random().toString(36).substr(2, 9)\<close> yields at the
  \<open>k\<close>-th call, \<open>randomCalls\<close> counts the calls made.

  What an element holds after an assignment is the host's affair: the markup assigned to
  \<^verbatim>\<open>innerHTML\<close> is parsed in the context of the element and read back as the
  serialization of what was parsed (a \<^verbatim>\<open>textarea\<close> takes it as text and reads it back
  escaped); a value assigned to an input is sanitized according to its type. For the
  element \<open>i\<close>, once \<open>s\<close> has been assigned to its \<^verbatim>\<open>innerHTML\<close>,
  \<open>markupRead i s\<close> is what \<^verbatim>\<open>innerHTML\<close> reads, \<open>markupText i s\<close> what
  \<^verbatim>\<open>textContent\<close> reads and \<open>markupValue i v s\<close> what \<^verbatim>\<open>value || ''\<close> reads when
  it read \<open>v\<close> before; once \<open>s\<close> has been assigned to its \<^verbatim>\<open>value\<close>,
  \<open>valueRead i s\<close> is what \<^verbatim>\<open>value\<close> reads. The assignment of a value is taken to
  succeed (the host refuses it for an input of type \<^verbatim>\<open>file\<close>).
\<close>

record window =
  elements :: "element list"
  body :: "string list option"
  lockScreen :: "lock_screen option"
  sessionStorage :: "(string \<times> string) list"
  searchCache :: "string list option"
  apiCache :: "string list option"
  api :: "string list"
  mathRandom :: "nat \<Rightarrow> string"
  randomCalls :: nat
  markupRead :: "nat \<Rightarrow> string \<Rightarrow> string"
  markupText :: "nat \<Rightarrow> string \<Rightarrow> string"
  markupValue :: "nat \<Rightarrow> string \<Rightarrow> string \<Rightarrow> string"
  valueRead :: "nat \<Rightarrow> string \<Rightarrow> string"

text \<open>The selectors of \<^verbatim>\<open>blankSensitiveData\<close>, in the order of the source.\<close>

datatype selector = HasDataSensitive | HasClass string | InputPassword

definition sensitiveSelectors :: "selector list" where
  "sensitiveSelectors =
     [HasDataSensitive, HasClass ''api-key'', HasClass ''user-token'',
      HasClass ''search-history'', HasClass ''personal-data'', InputPassword,
      HasClass ''sample-metadata'', HasClass ''user-profile'']"

fun matches :: "selector \<Rightarrow> element \<Rightarrow> bool" where
  "matches HasDataSensitive e = dataSensitive e"
| "matches (HasClass c) e = (c \<in> set (classList e))"
| "matches InputPassword e = (tagName e = ''INPUT'' \<and> typeAttr e = ''password'')"

text \<open>\<^verbatim>\<open>document.querySelectorAll\<close>: the matching elements of the document, in document order.\<close>

definition querySelectorAll :: "selector \<Rightarrow> window \<Rightarrow> nat list" where
  "querySelectorAll sel d =
     filter (\<lambda>i. hasParentNode (elements d ! i) \<and> matches sel (elements d ! i))
       [0 ..< length (elements d)]"

subsection \<open>SessionManager\<close>

text \<open>An entry of \<^verbatim>\<open>sensitiveDataBackup\<close>: the element and what was read from it.\<close>

record backup =
  elementRef :: nat
  originalContent :: string
  originalValue :: string
  originalText :: string

text \<open>
  The two \<^verbatim>\<open>Map\<close>s are association lists in insertion order. \<^verbatim>\<open>Map.set\<close> on a
  present key replaces the value where the key stands, on a new key it appends.
\<close>

record session_manager =
  unlockMethod :: string
  isLocked :: bool
  lockTime :: "int option"
  sensitiveDataBackup :: "(string \<times> backup) list"
  memoryCache :: "(string \<times> string) list"

fun map_set :: "'k \<Rightarrow> 'v \<Rightarrow> ('k \<times> 'v) list \<Rightarrow> ('k \<times> 'v) list" where
  "map_set k v [] = [(k, v)]"
| "map_set k v ((k', v') # m) = (if k = k' then (k, v) # m else (k', v') # map_set k v m)"

definition newSessionManager :: "process_env \<Rightarrow> string option \<Rightarrow> session_manager" where
  "newSessionManager penv optUnlockMethod =
     \<lparr>unlockMethod =
        (case truthyString optUnlockMethod of Some m \<Rightarrow> m
         | None \<Rightarrow> (case truthyString (AFK_UNLOCK_METHOD penv) of Some m \<Rightarrow> m | None \<Rightarrow> ''click'')),
      isLocked = False, lockTime = None, sensitiveDataBackup = [], memoryCache = []\<rparr>"

text \<open>Decimal rendering of \<^verbatim>\<open>Date.now()\<close> inside a template string.\<close>

fun digits :: "nat \<Rightarrow> string" where
  "digits n = (if n < 10 then [''0123456789'' ! n] else digits (n div 10) @ [''0123456789'' ! (n mod 10)])"

declare digits.simps [simp del]

definition numberToString :: "int \<Rightarrow> string" where
  "numberToString i = (if i < 0 then ''-'' @ digits (nat (- i)) else digits (nat i))"

definition generateElementId :: "element \<Rightarrow> int \<Rightarrow> string \<Rightarrow> string" where
  "generateElementId e now rnd =
     ''afk_'' @ tagName e @ ''_'' @ className e @ ''_'' @ numberToString now @ ''_'' @ rnd"

text \<open>
  The placeholder: eight bullets (U+2022, here as UTF-8 bytes), bare for an input's value
  and wrapped in a span for \<^verbatim>\<open>innerHTML\<close>.
\<close>

definition bullets :: string where
  "bullets = concat (replicate 8 [CHR 0xE2, CHR 0x80, CHR 0xA2])"

definition blankedSpan :: string where
  "blankedSpan = ''<span class=\"afk-blanked\">'' @ bullets @ ''</span>''"

text \<open>
  The body of the inner loop of \<^verbatim>\<open>blankSensitiveData\<close> for one element: the snapshot
  is stored, then the placeholder is assigned to the value of an input and to the
  \<^verbatim>\<open>innerHTML\<close> of any other element, and the class is added. \<open>now\<close> is what
  \<^verbatim>\<open>Date.now()\<close> reads in \<^verbatim>\<open>generateElementId\<close>; one call of
  \<^verbatim>\<open>blankSensitiveData\<close> is taken to pass within a millisecond.
\<close>

fun blankElement :: "int \<Rightarrow> nat \<Rightarrow> session_manager \<times> window \<Rightarrow> session_manager \<times> window" where
  "blankElement now i (sm, d) =
     (let e = elements d ! i;
          ident = generateElementId e now (mathRandom d (randomCalls d));
          b = \<lparr>elementRef = i, originalContent = innerHTML e, originalValue = val e,
               originalText = textContent e\<rparr>;
          e1 = (if tagName e = ''INPUT'' then e\<lparr>val := valueRead d i bullets\<rparr>
                else e\<lparr>innerHTML := markupRead d i blankedSpan,
                       textContent := markupText d i blankedSpan,
                       val := markupValue d i (val e) blankedSpan\<rparr>);
          e2 = addClass ''afk-sensitive-blanked'' e1
      in (sm\<lparr>sensitiveDataBackup := map_set ident b (sensitiveDataBackup sm)\<rparr>,
          d\<lparr>elements := (elements d)[i := e2], randomCalls := Suc (randomCalls d)\<rparr>))"

text \<open>The inner \<^verbatim>\<open>forEach\<close>: the node list is taken once, before its elements are blanked.\<close>

fun blankSelector :: "int \<Rightarrow> selector \<Rightarrow> session_manager \<times> window \<Rightarrow> session_manager \<times> window" where
  "blankSelector now sel (sm, d) = fold (blankElement now) (querySelectorAll sel d) (sm, d)"

fun blankSensitiveData :: "int \<Rightarrow> session_manager \<times> window option \<Rightarrow> session_manager \<times> window option" where
  "blankSensitiveData now (sm, None) = (sm, None)"
| "blankSensitiveData now (sm, Some d) =
     (case fold (blankSelector now) sensitiveSelectors (sm, d) of
        (sm', d') \<Rightarrow>
          (sm', Some (d'\<lparr>body := map_option (classList_add ''afk-session-locked'') (body d')\<rparr>)))"

text \<open>
  One step of the \<^verbatim>\<open>forEach\<close> of \<^verbatim>\<open>restoreSensitiveData\<close>: the value or the markup
  of the entry is assigned; \<open>originalText\<close> is not used.
\<close>

definition restoreElement :: "backup \<Rightarrow> window \<Rightarrow> window" where
  "restoreElement b d =
     (let e = elements d ! elementRef b in
      if hasParentNode e then
        let e1 = (if tagName e = ''INPUT'' then e\<lparr>val := valueRead d (elementRef b) (originalValue b)\<rparr>
                  else e\<lparr>innerHTML := markupRead d (elementRef b) (originalContent b),
                         textContent := markupText d (elementRef b) (originalContent b),
                         val := markupValue d (elementRef b) (val e) (originalContent b)\<rparr>);
            e2 = removeClass ''afk-sensitive-blanked'' e1
        in d\<lparr>elements := (elements d)[elementRef b := e2]\<rparr>
      else d)"

fun restoreSensitiveData :: "session_manager \<times> window option \<Rightarrow> session_manager \<times> window option" where
  "restoreSensitiveData (sm, None) = (sm, None)"
| "restoreSensitiveData (sm, Some d) =
     (let d' = fold restoreElement (map snd (sensitiveDataBackup sm)) d
      in (sm\<lparr>sensitiveDataBackup := []\<rparr>,
          Some (d'\<lparr>body := map_option (classList_remove ''afk-session-locked'') (body d')\<rparr>)))"

text \<open>
  \<^verbatim>\<open>clearMemoryCache\<close>: empties the cache of the manager; in a renderer it also removes
  the session-storage keys that contain \<^verbatim>\<open>api\<close>, \<^verbatim>\<open>token\<close> or \<^verbatim>\<open>search\<close> and clears
  the two global caches when they exist.
\<close>

definition sensitiveKey :: "string \<Rightarrow> bool" where
  "sensitiveKey k = (k \<noteq> [] \<and> (sublist ''api'' k \<or> sublist ''token'' k \<or> sublist ''search'' k))"

definition clearWindowCaches :: "window \<Rightarrow> window" where
  "clearWindowCaches d =
     d\<lparr>sessionStorage := filter (\<lambda>kv. \<not> sensitiveKey (fst kv)) (sessionStorage d),
       searchCache := map_option (\<lambda>c. []) (searchCache d),
       apiCache := map_option (\<lambda>c. []) (apiCache d)\<rparr>"

fun clearMemoryCache :: "session_manager \<times> window option \<Rightarrow> (session_manager \<times> window option) \<times> effect list" where
  "clearMemoryCache (sm, w) =
     ((sm\<lparr>memoryCache := []\<rparr>, map_option clearWindowCaches w), [Emit MemoryCleared])"

text \<open>
  \<^verbatim>\<open>createLockScreen\<close> and the \<^verbatim>\<open>appendChild\<close> of \<^verbatim>\<open>showLockScreen\<close>: the overlay
  joins the document, and with it, for the password method, its password input. The other
  parts of the overlay match none of the selectors and are not kept as elements.
\<close>

definition unlockInput :: element where
  "unlockInput =
     \<lparr>tagName = ''INPUT'', className = ''afk-unlock-input'', classList = [''afk-unlock-input''],
      dataSensitive = False, typeAttr = ''password'', innerHTML = [], val = [], textContent = [],
      hasParentNode = True\<rparr>"

definition createLockScreen :: "string \<Rightarrow> window \<Rightarrow> window" where
  "createLockScreen method d =
     d\<lparr>lockScreen := Some \<lparr>display = [], overlayClasses = [''afk-lock-screen'']\<rparr>,
       elements := elements d @ (if method = ''password'' then [unlockInput] else [])\<rparr>"

text \<open>
  \<^verbatim>\<open>showLockScreen\<close>. When the overlay has to be created and \<^verbatim>\<open>document.body\<close> is null,
  \<^verbatim>\<open>document.body.appendChild\<close> throws; nothing of the document has changed then. The
  deferred \<^verbatim>\<open>focus()\<close> is not part of the state.
\<close>

definition makeVisible :: "lock_screen \<Rightarrow> lock_screen" where
  "makeVisible ls =
     ls\<lparr>display := ''flex'',
        overlayClasses := classList_add ''afk-lock-screen-visible'' (overlayClasses ls)\<rparr>"

fun showLockScreen :: "string \<Rightarrow> window option \<Rightarrow> js_error + window option" where
  "showLockScreen method None = Inr None"
| "showLockScreen method (Some d) =
     (if lockScreen d = None \<and> body d = None then Inl TypeError
      else
        let d1 = (if lockScreen d = None then createLockScreen method d else d)
        in Inr (Some (d1\<lparr>lockScreen := map_option makeVisible (lockScreen d1)\<rparr>)))"

text \<open>
  \<^verbatim>\<open>hideLockScreen\<close>: the class goes at once; \<^verbatim>\<open>display = 'none'\<close> is set by a callback
  300ms later, which is not part of this call.
\<close>

definition makeHidden :: "lock_screen \<Rightarrow> lock_screen" where
  "makeHidden ls =
     ls\<lparr>overlayClasses := classList_remove ''afk-lock-screen-visible'' (overlayClasses ls)\<rparr>"

definition hideLockScreen :: "window option \<Rightarrow> window option" where
  "hideLockScreen w = map_option (\<lambda>d. d\<lparr>lockScreen := map_option makeHidden (lockScreen d)\<rparr>) w"

text \<open>\<^verbatim>\<open>window.api && window.api.f\<close> under \<^verbatim>\<open>typeof window !== 'undefined'\<close>.\<close>

definition apiProvides :: "string \<Rightarrow> window option \<Rightarrow> bool" where
  "apiProvides f w = (case w of None \<Rightarrow> False | Some d \<Rightarrow> f \<in> set (api d))"

text \<open>
  \<^verbatim>\<open>lockSession\<close>. The result is \<open>Inl\<close> when the call ends by the exception of
  \<^verbatim>\<open>showLockScreen\<close>; the state is the one reached at that point.
\<close>

fun lockSession :: "int \<Rightarrow> session_manager \<times> window option \<Rightarrow> (js_error + unit) \<times> (session_manager \<times> window option) \<times> effect list" where
  "lockSession now (sm, w) =
     (if isLocked sm then (Inr (), (sm, w), [])
      else
        (case clearMemoryCache (blankSensitiveData now (sm\<lparr>isLocked := True, lockTime := Some now\<rparr>, w)) of
           ((sm1, w1), fx) \<Rightarrow>
             (case showLockScreen (unlockMethod sm1) w1 of
                Inl err \<Rightarrow> (Inl err, (sm1, w1), fx)
              | Inr w2 \<Rightarrow>
                  (Inr (), (sm1, w2),
                   fx @ (if apiProvides ''notifySessionLock'' w2 then [ApiCall ''notifySessionLock''] else [])
                      @ [Emit (SessionLocked now)]))))"

text \<open>
  What is presented to \<^verbatim>\<open>unlockSession\<close>: \<^verbatim>\<open>null\<close> (the default), or an object whose
  \<^verbatim>\<open>password\<close> is a string or is missing (as for the click event the unlock button passes).
\<close>

datatype credentials = NoCredentials | Credentials "string option"

definition getStoredPassword :: "process_env \<Rightarrow> string" where
  "getStoredPassword penv =
     (case truthyString (AFK_UNLOCK_PASSWORD penv) of Some p \<Rightarrow> p | None \<Rightarrow> ''default'')"

definition validateOSAuth :: "credentials \<Rightarrow> bool" where
  "validateOSAuth c = True"

text \<open>\<^verbatim>\<open>validateUnlock\<close>, as the truth value \<^verbatim>\<open>unlockSession\<close> tests.\<close>

definition validateUnlock :: "process_env \<Rightarrow> credentials \<Rightarrow> session_manager \<Rightarrow> bool" where
  "validateUnlock penv c sm =
     (if unlockMethod sm = ''click'' then True
      else if unlockMethod sm = ''password'' then
        (case c of NoCredentials \<Rightarrow> False | Credentials p \<Rightarrow> p = Some (getStoredPassword penv))
      else if unlockMethod sm = ''os'' then validateOSAuth c
      else True)"

text \<open>\<^verbatim>\<open>unlockTime - this.lockTime\<close>: a null lock time counts as 0.\<close>

definition lockDuration :: "int \<Rightarrow> int option \<Rightarrow> int" where
  "lockDuration unlockTime lt = unlockTime - (case lt of None \<Rightarrow> 0 | Some t \<Rightarrow> t)"

text \<open>\<^verbatim>\<open>unlockSession\<close>, run to completion; the boolean is the value the promise resolves to.\<close>

fun unlockSession :: "process_env \<Rightarrow> int \<Rightarrow> credentials \<Rightarrow> session_manager \<times> window option \<Rightarrow> bool \<times> (session_manager \<times> window option) \<times> effect list" where
  "unlockSession penv now c (sm, w) =
     (if \<not> isLocked sm then (True, (sm, w), [])
      else if \<not> validateUnlock penv c sm then (False, (sm, w), [Emit (UnlockFailed (unlockMethod sm))])
      else
        (case restoreSensitiveData (sm\<lparr>isLocked := False\<rparr>, w) of
           (sm1, w1) \<Rightarrow>
             (True, (sm1, hideLockScreen w1),
              (if apiProvides ''notifySessionUnlock'' w1 then [ApiCall ''notifySessionUnlock''] else [])
                @ [Emit (SessionUnlocked now (lockDuration now (lockTime sm1)) (unlockMethod sm1))])))"

subsection \<open>ActivityTracker\<close>

text \<open>
  A handle returned by \<^verbatim>\<open>setTimeout\<close>, with the host's side of it: when it was armed,
  the delay that was passed, and whether its callback has run. A cleared handle is dropped
  from the field that held it (every \<^verbatim>\<open>clearTimeout\<close> of the source is followed by
  overwriting the field).
\<close>

record timeout_handle =
  armedAt :: int
  delay :: int
  fired :: bool

text \<open>
  The timers are those of Node.js (the application creates the guard in its main
  process): the delay is kept as a 32-bit integer, and a delay below 1 or above
  \<^verbatim>\<open>2^31 - 1\<close> milliseconds is replaced by 1. The deadline of a handle is the time from
  which the host runs its callback.
\<close>

definition hostDelay :: "int \<Rightarrow> int" where
  "hostDelay d = (if 1 \<le> d \<and> d \<le> 2147483647 then d else 1)"

definition deadline :: "timeout_handle \<Rightarrow> int" where
  "deadline h = armedAt h + hostDelay (delay h)"

text \<open>
  The fields of the tracker, then the listeners it has registered with its bound handlers:
  \<open>documentListeners\<close> are the event types for which \<^verbatim>\<open>handleActivity\<close> listens on the
  document, the flags stand for \<^verbatim>\<open>visibilitychange\<close>, for \<^verbatim>\<open>focus\<close> and \<^verbatim>\<open>blur\<close> of
  the window, for \<^verbatim>\<open>play\<close>, \<^verbatim>\<open>pause\<close> and \<^verbatim>\<open>timeupdate\<close> of the media elements, and
  for the two channels of \<^verbatim>\<open>ipcMain\<close>. \<open>audioCheckInterval\<close> says that the 5s interval
  is set.
\<close>

record activity_tracker =
  timeout :: int
  warningTime :: int
  sensitivity :: string
  enabled :: bool
  timer :: "timeout_handle option"
  warningTimer :: "timeout_handle option"
  isTracking :: bool
  lastActivity :: int
  activityEvents :: "string list"
  audioCheckInterval :: bool
  documentListeners :: "string list"
  visibilityListener :: bool
  focusListeners :: bool
  mediaListeners :: bool
  ipcListeners :: bool

text \<open>The configuration an options object can carry; a missing property is \<open>None\<close>.\<close>

record tracker_options =
  optTimeout :: "int option"
  optWarningTime :: "int option"
  optSensitivity :: "string option"
  optEnabled :: "bool option"

definition noOptions :: tracker_options where
  "noOptions = \<lparr>optTimeout = None, optWarningTime = None, optSensitivity = None, optEnabled = None\<rparr>"

text \<open>
  \<^verbatim>\<open>parseInt(...) * 60 * 1000\<close>: the product, which the numbers of the language give
  exactly while it stays below \<^verbatim>\<open>2^53\<close>.
\<close>

definition minutes :: "int option \<Rightarrow> int option" where
  "minutes m = map_option (\<lambda>x. x * 60 * 1000) m"

definition newActivityTracker :: "process_env \<Rightarrow> int \<Rightarrow> tracker_options \<Rightarrow> activity_tracker" where
  "newActivityTracker penv now opts =
     \<lparr>timeout =
        (case truthyNumber (optTimeout opts) of Some t \<Rightarrow> t
         | None \<Rightarrow> (case truthyNumber (minutes (AFK_TIMEOUT_MINUTES penv)) of Some t \<Rightarrow> t
                    | None \<Rightarrow> 10 * 60 * 1000)),
      warningTime =
        (case truthyNumber (optWarningTime opts) of Some t \<Rightarrow> t
         | None \<Rightarrow> (case truthyNumber (minutes (AFK_WARNING_MINUTES penv)) of Some t \<Rightarrow> t
                    | None \<Rightarrow> 2 * 60 * 1000)),
      sensitivity = (case truthyString (optSensitivity opts) of Some s \<Rightarrow> s | None \<Rightarrow> ''normal''),
      enabled = (optEnabled opts \<noteq> Some False \<and> AFK_ENABLED penv \<noteq> Some ''false''),
      timer = None, warningTimer = None, isTracking = False, lastActivity = now,
      activityEvents = [], audioCheckInterval = False,
      documentListeners = [], visibilityListener = False, focusListeners = False,
      mediaListeners = False, ipcListeners = False\<rparr>"

text \<open>\<^verbatim>\<open>Object.assign(this, options)\<close>: every property present in the options is copied.\<close>

definition assignOptions :: "tracker_options \<Rightarrow> activity_tracker \<Rightarrow> activity_tracker" where
  "assignOptions opts t =
     t\<lparr>timeout := (case optTimeout opts of Some x \<Rightarrow> x | None \<Rightarrow> timeout t),
       warningTime := (case optWarningTime opts of Some x \<Rightarrow> x | None \<Rightarrow> warningTime t),
       sensitivity := (case optSensitivity opts of Some x \<Rightarrow> x | None \<Rightarrow> sensitivity t),
       enabled := (case optEnabled opts of Some x \<Rightarrow> x | None \<Rightarrow> enabled t)\<rparr>"

definition baseEvents :: "string list" where
  "baseEvents = [''mousedown'', ''mousemove'', ''keydown'', ''scroll'', ''touchstart'']"

definition getActivityEvents :: "activity_tracker \<Rightarrow> string list" where
  "getActivityEvents t =
     (if sensitivity t = ''low'' then [''mousedown'', ''keydown'', ''touchstart'']
      else if sensitivity t = ''high'' then
        baseEvents @ [''mouseup'', ''keyup'', ''wheel'', ''touchend'', ''touchmove'']
      else baseEvents)"

text \<open>\<^verbatim>\<open>addEventListener\<close> ignores a listener that is already registered for the type.\<close>

definition addListener :: "string \<Rightarrow> string list \<Rightarrow> string list" where
  "addListener ty ls = (if ty \<in> set ls then ls else ls @ [ty])"

definition setupRendererListeners :: "activity_tracker \<Rightarrow> activity_tracker" where
  "setupRendererListeners t =
     t\<lparr>documentListeners := fold addListener (getActivityEvents t) (documentListeners t),
       visibilityListener := True, focusListeners := True,
       mediaListeners := True, audioCheckInterval := True,
       activityEvents := getActivityEvents t\<rparr>"

definition setupMainProcessListeners :: "bool \<Rightarrow> activity_tracker \<Rightarrow> activity_tracker" where
  "setupMainProcessListeners ipcMain t = (if ipcMain then t\<lparr>ipcListeners := True\<rparr> else t)"

definition resetTimer :: "int \<Rightarrow> activity_tracker \<Rightarrow> activity_tracker" where
  "resetTimer now t =
     (if \<not> isTracking t then t
      else t\<lparr>warningTimer := Some \<lparr>armedAt = now, delay = timeout t - warningTime t, fired = False\<rparr>,
             timer := Some \<lparr>armedAt = now, delay = timeout t, fired = False\<rparr>\<rparr>)"

definition startTracking :: "int \<Rightarrow> tracker_options \<Rightarrow> window option \<Rightarrow> bool \<Rightarrow> activity_tracker \<Rightarrow> activity_tracker \<times> effect list" where
  "startTracking now opts w ipcMain t =
     (if \<not> enabled t \<or> isTracking t then (t, [])
      else
        let t1 = (assignOptions opts t)\<lparr>isTracking := True, lastActivity := now\<rparr>;
            t2 = (if w \<noteq> None then setupRendererListeners t1 else setupMainProcessListeners ipcMain t1)
        in (resetTimer now t2, [Emit TrackingStarted]))"

text \<open>\<^verbatim>\<open>event?.type || 'system'\<close>.\<close>

definition eventType :: "string option \<Rightarrow> string" where
  "eventType ev = (case truthyString ev of Some ty \<Rightarrow> ty | None \<Rightarrow> ''system'')"

definition handleActivity :: "int \<Rightarrow> string option \<Rightarrow> window option \<Rightarrow> activity_tracker \<Rightarrow> activity_tracker \<times> effect list" where
  "handleActivity now ev w t =
     (if \<not> isTracking t then (t, [])
      else if now - lastActivity t < 100 then (t, [])
      else
        (resetTimer now (t\<lparr>lastActivity := now\<rparr>),
         (if apiProvides ''reportActivity'' w then [ApiCall ''reportActivity''] else [])
           @ [Emit (ActivityDetected (eventType ev) now)]))"

text \<open>\<^verbatim>\<open>handleVisibilityChange\<close>, with \<^verbatim>\<open>document.hidden\<close> as a parameter.\<close>

definition handleVisibilityChange :: "int \<Rightarrow> bool \<Rightarrow> window option \<Rightarrow> activity_tracker \<Rightarrow> activity_tracker \<times> effect list" where
  "handleVisibilityChange now hidden w t =
     (if hidden then (t, [Emit VisibilityHidden])
      else
        (case handleActivity now (Some ''visibility-change'') w t of
           (t1, fx) \<Rightarrow> (t1, fx @ [Emit VisibilityVisible])))"

text \<open>\<^verbatim>\<open>handleFocusChange\<close> as the listener of the window's \<^verbatim>\<open>focus\<close> and \<^verbatim>\<open>blur\<close>.\<close>

definition handleFocusChange :: "int \<Rightarrow> string \<Rightarrow> bool \<Rightarrow> window option \<Rightarrow> activity_tracker \<Rightarrow> activity_tracker \<times> effect list" where
  "handleFocusChange now ty hidden w t =
     (let isFocused = (ty = ''focus'' \<or> \<not> hidden) in
      case (if isFocused then handleActivity now (Some ''focus-change'') w t else (t, [])) of
        (t1, fx) \<Rightarrow> (t1, fx @ [Emit (FocusChange isFocused)]))"

text \<open>A media element as \<^verbatim>\<open>checkAudioActivity\<close> reads it.\<close>

record media_element =
  paused :: bool
  currentTime :: real

definition checkAudioActivity :: "int \<Rightarrow> media_element list \<Rightarrow> window option \<Rightarrow> activity_tracker \<Rightarrow> activity_tracker \<times> effect list" where
  "checkAudioActivity now media w t =
     (if list_ex (\<lambda>m. \<not> paused m \<and> currentTime m > 0) media
      then handleActivity now (Some ''audio-activity'') w t
      else (t, []))"

definition stopTracking :: "window option \<Rightarrow> bool \<Rightarrow> activity_tracker \<Rightarrow> activity_tracker \<times> effect list" where
  "stopTracking w ipcMain t =
     (if \<not> isTracking t then (t, [])
      else
        let t1 = t\<lparr>isTracking := False, timer := None, warningTimer := None, audioCheckInterval := False\<rparr>;
            t2 = (if w \<noteq> None then
                    t1\<lparr>documentListeners :=
                         filter (\<lambda>ty. ty \<notin> set (activityEvents t1)) (documentListeners t1),
                       visibilityListener := False, focusListeners := False, mediaListeners := False\<rparr>
                  else if ipcMain then t1\<lparr>ipcListeners := False\<rparr>
                  else t1)
        in (t2, [Emit TrackingStopped]))"

text \<open>
  The callbacks of the two timers. The host runs a callback once, not before the deadline
  of its handle, and only while the handle has not been cleared.
\<close>

definition warningTimerFires :: "int \<Rightarrow> activity_tracker \<Rightarrow> activity_tracker \<times> effect list" where
  "warningTimerFires now t =
     (case warningTimer t of
        None \<Rightarrow> (t, [])
      | Some h \<Rightarrow>
          if fired h \<or> now < deadline h then (t, [])
          else (t\<lparr>warningTimer := Some (h\<lparr>fired := True\<rparr>)\<rparr>,
                [Emit (InactivityWarning (timeout t - warningTime t) (warningTime t))]))"

definition timerFires :: "int \<Rightarrow> activity_tracker \<Rightarrow> activity_tracker \<times> effect list" where
  "timerFires now t =
     (case timer t of
        None \<Rightarrow> (t, [])
      | Some h \<Rightarrow>
          if fired h \<or> now < deadline h then (t, [])
          else (t\<lparr>timer := Some (h\<lparr>fired := True\<rparr>)\<rparr>, [Emit InactivityTimeout]))"

text \<open>
  How the host delivers what the tracker listens to. The listeners of a type run in the
  order of their registration.
\<close>

definition visibilityEvent :: "int \<Rightarrow> bool \<Rightarrow> window option \<Rightarrow> activity_tracker \<Rightarrow> activity_tracker \<times> effect list" where
  "visibilityEvent now hidden w t =
     (if visibilityListener t then handleVisibilityChange now hidden w t else (t, []))"

text \<open>
  An event of type \<open>ty\<close> dispatched on the document, \<open>hidden\<close> being
  \<^verbatim>\<open>document.hidden\<close> at that time: it reaches \<^verbatim>\<open>handleActivity\<close> when that was
  registered for the type, then \<^verbatim>\<open>handleVisibilityChange\<close> when the type is
  \<^verbatim>\<open>visibilitychange\<close> and that listener is registered.
\<close>

definition documentEvent :: "int \<Rightarrow> string \<Rightarrow> bool \<Rightarrow> window option \<Rightarrow> activity_tracker \<Rightarrow> activity_tracker \<times> effect list" where
  "documentEvent now ty hidden w t =
     (case (if ty \<in> set (documentListeners t) then handleActivity now (Some ty) w t else (t, [])) of
        (t1, fx) \<Rightarrow>
          (if ty = ''visibilitychange''
           then (case visibilityEvent now hidden w t1 of (t2, fx') \<Rightarrow> (t2, fx @ fx'))
           else (t1, fx)))"

definition focusEvent :: "int \<Rightarrow> string \<Rightarrow> bool \<Rightarrow> window option \<Rightarrow> activity_tracker \<Rightarrow> activity_tracker \<times> effect list" where
  "focusEvent now ty hidden w t =
     (if focusListeners t then handleFocusChange now ty hidden w t else (t, []))"

definition mediaEvent :: "int \<Rightarrow> media_element list \<Rightarrow> window option \<Rightarrow> activity_tracker \<Rightarrow> activity_tracker \<times> effect list" where
  "mediaEvent now media w t =
     (if mediaListeners t then checkAudioActivity now media w t else (t, []))"

definition audioCheckTick :: "int \<Rightarrow> media_element list \<Rightarrow> window option \<Rightarrow> activity_tracker \<Rightarrow> activity_tracker \<times> effect list" where
  "audioCheckTick now media w t =
     (if audioCheckInterval t then checkAudioActivity now media w t else (t, []))"

definition userActivityMessage :: "int \<Rightarrow> string option \<Rightarrow> window option \<Rightarrow> activity_tracker \<Rightarrow> activity_tracker \<times> effect list" where
  "userActivityMessage now ev w t =
     (if ipcListeners t then handleActivity now ev w t else (t, []))"

subsection \<open>AFKGuard\<close>

text \<open>
  The guard with the process it runs in: its two components and its flag, the window
  (\<open>None\<close> where \<^verbatim>\<open>typeof window\<close> is \<^verbatim>\<open>'undefined'\<close>), whether \<^verbatim>\<open>ipcMain\<close> exists,
  the environment, the errors thrown out of a listener of the guard (\<open>uncaught\<close>), and
  the trace of effects, each with the object it was emitted on.
\<close>

datatype emitter = OnTracker | OnSession | OnGuard

record afk_guard =
  activityTracker :: activity_tracker
  sessionManager :: session_manager
  guardEnabled :: bool
  globalWindow :: "window option"
  hasIpcMain :: bool
  processEnv :: process_env
  uncaught :: "js_error list"
  trace :: "(emitter \<times> effect) list"

record session_options =
  optUnlockMethod :: "string option"

record guard_options =
  optActivity :: "tracker_options option"
  optSession :: "session_options option"
  optGuardEnabled :: "bool option"

definition newAFKGuard :: "process_env \<Rightarrow> window option \<Rightarrow> bool \<Rightarrow> int \<Rightarrow> guard_options \<Rightarrow> afk_guard" where
  "newAFKGuard penv w ipcMain now opts =
     \<lparr>activityTracker =
        newActivityTracker penv now (case optActivity opts of Some a \<Rightarrow> a | None \<Rightarrow> noOptions),
      sessionManager =
        newSessionManager penv (case optSession opts of Some so \<Rightarrow> optUnlockMethod so | None \<Rightarrow> None),
      guardEnabled = (optGuardEnabled opts \<noteq> Some False \<and> AFK_ENABLED penv \<noteq> Some ''false''),
      globalWindow = w, hasIpcMain = ipcMain, processEnv = penv, uncaught = [], trace = []\<rparr>"

definition record_effects :: "emitter \<Rightarrow> effect list \<Rightarrow> afk_guard \<Rightarrow> afk_guard" where
  "record_effects src fx g = g\<lparr>trace := trace g @ map (Pair src) fx\<rparr>"

text \<open>Calls of the tracker's methods on the guard's tracker.\<close>

definition guardStopTracking :: "afk_guard \<Rightarrow> afk_guard" where
  "guardStopTracking g =
     (case stopTracking (globalWindow g) (hasIpcMain g) (activityTracker g) of
        (t, fx) \<Rightarrow> record_effects OnTracker fx (g\<lparr>activityTracker := t\<rparr>))"

definition guardStartTracking :: "int \<Rightarrow> tracker_options \<Rightarrow> afk_guard \<Rightarrow> afk_guard" where
  "guardStartTracking now opts g =
     (case startTracking now opts (globalWindow g) (hasIpcMain g) (activityTracker g) of
        (t, fx) \<Rightarrow> record_effects OnTracker fx (g\<lparr>activityTracker := t\<rparr>))"

text \<open>
  The listeners \<^verbatim>\<open>setupEventForwarding\<close> puts on the session manager, run when the
  manager emits. Every emission a listener of the guard reacts to by changing state is the
  last statement of the method that emits it, so the listeners run on the state the method
  leaves.
\<close>

definition sessionEmits :: "int \<Rightarrow> effect \<Rightarrow> afk_guard \<Rightarrow> afk_guard" where
  "sessionEmits now fx g =
     (let g1 = record_effects OnSession [fx] g in
      case fx of
        Emit (SessionLocked t) \<Rightarrow>
          record_effects OnGuard [Emit (SessionLocked t)] (guardStopTracking g1)
      | Emit (SessionUnlocked t d m) \<Rightarrow>
          record_effects OnGuard [Emit (SessionUnlocked t d m)]
            (if guardEnabled g1 then guardStartTracking now noOptions g1 else g1)
      | Emit (UnlockFailed m) \<Rightarrow> record_effects OnGuard [Emit (UnlockFailed m)] g1
      | _ \<Rightarrow> g1)"

definition guardLockSession :: "int \<Rightarrow> afk_guard \<Rightarrow> afk_guard" where
  "guardLockSession now g =
     (case lockSession now (sessionManager g, globalWindow g) of
        (res, (sm, w), fx) \<Rightarrow>
          (let g1 = fold (sessionEmits now) fx (g\<lparr>sessionManager := sm, globalWindow := w\<rparr>) in
           case res of Inl err \<Rightarrow> g1\<lparr>uncaught := uncaught g1 @ [err]\<rparr> | Inr u \<Rightarrow> g1))"

definition guardUnlockSession :: "int \<Rightarrow> credentials \<Rightarrow> afk_guard \<Rightarrow> bool \<times> afk_guard" where
  "guardUnlockSession now c g =
     (case unlockSession (processEnv g) now c (sessionManager g, globalWindow g) of
        (ok, (sm, w), fx) \<Rightarrow>
          (ok, fold (sessionEmits now) fx (g\<lparr>sessionManager := sm, globalWindow := w\<rparr>)))"

text \<open>The listeners put on the tracker.\<close>

definition trackerEmits :: "int \<Rightarrow> effect \<Rightarrow> afk_guard \<Rightarrow> afk_guard" where
  "trackerEmits now fx g =
     (let g1 = record_effects OnTracker [fx] g in
      case fx of
        Emit InactivityTimeout \<Rightarrow> (if guardEnabled g1 then guardLockSession now g1 else g1)
      | Emit (InactivityWarning r wt) \<Rightarrow> record_effects OnGuard [Emit (InactivityWarning r wt)] g1
      | Emit (ActivityDetected ty ts) \<Rightarrow> record_effects OnGuard [Emit (ActivityDetected ty ts)] g1
      | _ \<Rightarrow> g1)"

text \<open>
  What reaches the guard's tracker from outside: an activity event handed to
  \<^verbatim>\<open>handleActivity\<close>, and the two timer callbacks.
\<close>

definition guardHandleActivity :: "int \<Rightarrow> string option \<Rightarrow> afk_guard \<Rightarrow> afk_guard" where
  "guardHandleActivity now ev g =
     (case handleActivity now ev (globalWindow g) (activityTracker g) of
        (t, fx) \<Rightarrow> fold (trackerEmits now) fx (g\<lparr>activityTracker := t\<rparr>))"

definition guardWarningTimerFires :: "int \<Rightarrow> afk_guard \<Rightarrow> afk_guard" where
  "guardWarningTimerFires now g =
     (case warningTimerFires now (activityTracker g) of
        (t, fx) \<Rightarrow> fold (trackerEmits now) fx (g\<lparr>activityTracker := t\<rparr>))"

definition guardTimerFires :: "int \<Rightarrow> afk_guard \<Rightarrow> afk_guard" where
  "guardTimerFires now g =
     (case timerFires now (activityTracker g) of
        (t, fx) \<Rightarrow> fold (trackerEmits now) fx (g\<lparr>activityTracker := t\<rparr>))"

text \<open>\<^verbatim>\<open>AFKGuard.start\<close>; a missing \<^verbatim>\<open>options.activity\<close> is the default \<^verbatim>\<open>{}\<close> of \<^verbatim>\<open>startTracking\<close>.\<close>

definition start :: "int \<Rightarrow> guard_options \<Rightarrow> afk_guard \<Rightarrow> afk_guard" where
  "start now opts g =
     (if \<not> guardEnabled g then g
      else record_effects OnGuard [Emit AfkGuardStarted]
             (guardStartTracking now (case optActivity opts of Some a \<Rightarrow> a | None \<Rightarrow> noOptions) g))"

text \<open>
  \<^verbatim>\<open>AFKGuard.stop\<close>. \<^verbatim>\<open>unlockSession()\<close> is called with no credentials and not awaited:
  it runs to its \<^verbatim>\<open>await\<close>, \<^verbatim>\<open>stop\<close> emits and returns, then the rest of
  \<^verbatim>\<open>unlockSession\<close> runs. No listener of \<^verbatim>\<open>afk-guard-stopped\<close> belongs to the module, so
  the state the rest runs on is the one \<^verbatim>\<open>stop\<close> left. The result is the state once the
  call of \<^verbatim>\<open>unlockSession\<close> has completed.
\<close>

definition stop :: "int \<Rightarrow> afk_guard \<Rightarrow> afk_guard" where
  "stop now g =
     (let g1 = guardStopTracking g in
      if isLocked (sessionManager g1)
      then snd (guardUnlockSession now NoCredentials (record_effects OnGuard [Emit AfkGuardStopped] g1))
      else record_effects OnGuard [Emit AfkGuardStopped] g1)"

text \<open>\<^verbatim>\<open>AFKGuard.configure\<close>: plain \<^verbatim>\<open>Object.assign\<close> on the components; no timer is touched.\<close>

definition configure :: "guard_options \<Rightarrow> afk_guard \<Rightarrow> afk_guard" where
  "configure opts g =
     g\<lparr>activityTracker :=
         (case optActivity opts of Some a \<Rightarrow> assignOptions a (activityTracker g)
          | None \<Rightarrow> activityTracker g),
       sessionManager :=
         (case optSession opts of
            Some so \<Rightarrow>
              (case optUnlockMethod so of Some m \<Rightarrow> (sessionManager g)\<lparr>unlockMethod := m\<rparr>
               | None \<Rightarrow> sessionManager g)
          | None \<Rightarrow> sessionManager g),
       guardEnabled := (case optGuardEnabled opts of Some b \<Rightarrow> b | None \<Rightarrow> guardEnabled g)\<rparr>"

subsection \<open>Runs of operations\<close>

text \<open>A lock or unlock operation on a session manager, and what a sequence of them leaves.\<close>

datatype session_op = LockOp int | UnlockOp int credentials

definition session_step :: "process_env \<Rightarrow> session_op \<Rightarrow> session_manager \<times> window option \<Rightarrow> session_manager \<times> window option" where
  "session_step penv op st =
     (case op of
        LockOp now \<Rightarrow> fst (snd (lockSession now st))
      | UnlockOp now c \<Rightarrow> fst (snd (unlockSession penv now c st)))"

text \<open>
  The invariant behind the emptiness of the backup: entries exist only while the manager
  is locked, and only in a process that has a window.
\<close>

definition vault_inv :: "session_manager \<times> window option \<Rightarrow> bool" where
  "vault_inv st = (sensitiveDataBackup (fst st) = [] \<or> (isLocked (fst st) \<and> snd st \<noteq> None))"

text \<open>Concrete values used to exercise the theorems.\<close>

definition plainEnv :: process_env where
  "plainEnv =
     \<lparr>AFK_TIMEOUT_MINUTES = None, AFK_WARNING_MINUTES = None, AFK_ENABLED = None,
      AFK_UNLOCK_METHOD = None, AFK_UNLOCK_PASSWORD = None\<rparr>"

definition divWith :: "string list \<Rightarrow> string \<Rightarrow> element" where
  "divWith cls html =
     \<lparr>tagName = ''DIV'', className = joinWith '' '' cls, classList = cls, dataSensitive = False,
      typeAttr = [], innerHTML = html, val = [], textContent = html, hasParentNode = True\<rparr>"

text \<open>
  The host of the examples, on text without character references other than those of
  \<^verbatim>\<open>&\<close>, \<^verbatim>\<open><\<close> and \<^verbatim>\<open>>\<close>. A \<^verbatim>\<open>textarea\<close> takes the markup assigned to it as
  text, resolving the references, and reads it back escaped; any other element reads back
  what was assigned, its text being the markup without the tags; an input reads back the
  value assigned.
\<close>

fun escapeText :: "string \<Rightarrow> string" where
  "escapeText [] = []"
| "escapeText (c # cs) =
     (if c = CHR ''&'' then ''&amp;'' else if c = CHR ''<'' then ''&lt;''
      else if c = CHR ''>'' then ''&gt;'' else [c]) @ escapeText cs"

fun resolveFrom :: "nat \<Rightarrow> string \<Rightarrow> string" where
  "resolveFrom skip [] = []"
| "resolveFrom skip (c # cs) =
     (if 0 < skip then resolveFrom (skip - 1) cs
      else if c = CHR ''&'' \<and> take 3 cs = ''lt;'' then CHR ''<'' # resolveFrom 3 cs
      else if c = CHR ''&'' \<and> take 3 cs = ''gt;'' then CHR ''>'' # resolveFrom 3 cs
      else if c = CHR ''&'' \<and> take 4 cs = ''amp;'' then CHR ''&'' # resolveFrom 4 cs
      else c # resolveFrom 0 cs)"

fun dropTags :: "bool \<Rightarrow> string \<Rightarrow> string" where
  "dropTags inTag [] = []"
| "dropTags inTag (c # cs) =
     (if c = CHR ''<'' then dropTags True cs
      else if inTag then dropTags (c \<noteq> CHR ''>'') cs
      else c # dropTags False cs)"

definition isTextarea :: "element list \<Rightarrow> nat \<Rightarrow> bool" where
  "isTextarea es i = (i < length es \<and> tagName (es ! i) = ''TEXTAREA'')"

definition pageOf :: "element list \<Rightarrow> window" where
  "pageOf es =
     \<lparr>elements = es, body = Some [], lockScreen = None, sessionStorage = [],
      searchCache = None, apiCache = None, api = [],
      mathRandom = (\<lambda>k. replicate k CHR ''z''), randomCalls = 0,
      markupRead = (\<lambda>i s. if isTextarea es i then escapeText (resolveFrom 0 s) else s),
      markupText = (\<lambda>i s. if isTextarea es i then resolveFrom 0 s else resolveFrom 0 (dropTags False s)),
      markupValue = (\<lambda>i v s. if isTextarea es i then resolveFrom 0 s else v),
      valueRead = (\<lambda>i s. s)\<rparr>"

text \<open>A series of unlock attempts, each awaited before the next: the results and the final state.\<close>

fun unlockAttempts :: "process_env \<Rightarrow> (int \<times> credentials) list \<Rightarrow> session_manager \<times> window option \<Rightarrow> bool list \<times> (session_manager \<times> window option)" where
  "unlockAttempts penv [] st = ([], st)"
| "unlockAttempts penv (a # as) st =
     (case unlockSession penv (fst a) (snd a) st of
        (ok, st1, fx) \<Rightarrow>
          (case unlockAttempts penv as st1 of (oks, st2) \<Rightarrow> (ok # oks, st2)))"

text \<open>A series of calls of \<^verbatim>\<open>handleActivity\<close>: the final tracker and all the effects.\<close>

fun observeAll :: "(int \<times> string option) list \<Rightarrow> window option \<Rightarrow> activity_tracker \<Rightarrow> activity_tracker \<times> effect list" where
  "observeAll [] w t = (t, [])"
| "observeAll (e # es) w t =
     (case handleActivity (fst e) (snd e) w t of
        (t1, fx) \<Rightarrow> (case observeAll es w t1 of (t2, fx') \<Rightarrow> (t2, fx @ fx')))"

text \<open>
  A page with one protected element, locked at time 10 by a manager that unlocks by
  password (the stored password is the default one, \<^verbatim>\<open>'default'\<close>).
\<close>

definition lockedPage :: "session_manager \<times> window option" where
  "lockedPage =
     fst (snd (lockSession 10
       (newSessionManager plainEnv (Some ''password''), Some (pageOf [divWith [''api-key''] ''secret'']))))"

text \<open>A tracker with the default configuration, started at time 0 in a renderer.\<close>

definition runningTracker :: activity_tracker where
  "runningTracker =
     fst (startTracking 0 noOptions (Some (pageOf [])) False (newActivityTracker plainEnv 0 noOptions))"

subsection \<open>The claims' side\<close>

text \<open>
  The condition under which \<^verbatim>\<open>start(config)\<close> is said to fail with
  \<^verbatim>\<open>InvalidConfiguration\<close>: the warning lead is not below the timeout, or a duration is
  negative or zero.
\<close>

definition specInvalidConfiguration :: "int \<Rightarrow> int \<Rightarrow> bool" where
  "specInvalidConfiguration timeoutMs warningLead =
     (warningLead \<ge> timeoutMs \<or> timeoutMs \<le> 0 \<or> warningLead \<le> 0)"

text \<open>The event kinds of the sensitivity filter as the claim lists them, level by level.\<close>

datatype activity_kind =
  PointerDown | KeyDown | ExternalReport | PointerMove | Scroll | PointerUp | KeyUp | Wheel | MediaPlayback

datatype sensitivity_level = Low | Normal | High

fun specEnabledKinds :: "sensitivity_level \<Rightarrow> activity_kind list" where
  "specEnabledKinds Low = [PointerDown, KeyDown, ExternalReport]"
| "specEnabledKinds Normal = [PointerDown, KeyDown, ExternalReport] @ [PointerMove, Scroll]"
| "specEnabledKinds High =
     [PointerDown, KeyDown, ExternalReport] @ [PointerMove, Scroll]
       @ [PointerUp, KeyUp, Wheel, MediaPlayback]"

text \<open>\<^verbatim>\<open>showLockScreen\<close> does not throw: no window, or an overlay or a body to append it to.\<close>

definition canShowLockScreen :: "window option \<Rightarrow> bool" where
  "canShowLockScreen w = (case w of None \<Rightarrow> True | Some d \<Rightarrow> lockScreen d \<noteq> None \<or> body d \<noteq> None)"

text \<open>Trackers for the examples: one misconfigured, one of low sensitivity, both started at 0.\<close>

definition misconfiguredTracker :: activity_tracker where
  "misconfiguredTracker =
     newActivityTracker plainEnv 0
       \<lparr>optTimeout = Some 1000, optWarningTime = Some 2000, optSensitivity = None, optEnabled = None\<rparr>"

definition lowTracker :: activity_tracker where
  "lowTracker =
     fst (startTracking 0 noOptions (Some (pageOf [])) False
       (newActivityTracker plainEnv 0
          \<lparr>optTimeout = None, optWarningTime = None, optSensitivity = Some ''low'', optEnabled = None\<rparr>))"

definition playing :: media_element where
  "playing = \<lparr>paused = False, currentTime = 12\<rparr>"

text \<open>A series of activity events handed to the guard's tracker.\<close>

definition guardObserveAll :: "(int \<times> string option) list \<Rightarrow> afk_guard \<Rightarrow> afk_guard" where
  "guardObserveAll evs g = fold (\<lambda>e. guardHandleActivity (fst e) (snd e)) evs g"

text \<open>
  A guard in a renderer with one protected element, started at 0 with the defaults and
  locked by its own timeout at 600000; the parameter is the unlock method.
\<close>

definition noGuardOptions :: guard_options where
  "noGuardOptions = \<lparr>optActivity = None, optSession = None, optGuardEnabled = None\<rparr>"

definition startedGuard :: "string \<Rightarrow> afk_guard" where
  "startedGuard method =
     start 0 noGuardOptions
       (newAFKGuard plainEnv (Some (pageOf [divWith [''api-key''] ''secret''])) False 0
          \<lparr>optActivity = None, optSession = Some \<lparr>optUnlockMethod = Some method\<rparr>,
           optGuardEnabled = None\<rparr>)"

definition lockedGuard :: "string \<Rightarrow> afk_guard" where
  "lockedGuard method = guardTimerFires 600000 (startedGuard method)"

subsection \<open>Reading a protected region\<close>

text \<open>
  The content of a region is what blanking overwrites and restoring writes back: the value
  of an input, the \<^verbatim>\<open>innerHTML\<close> of any other element. The placeholder is what blanking
  writes there.
\<close>

definition content :: "element \<Rightarrow> string" where
  "content e = (if tagName e = ''INPUT'' then val e else innerHTML e)"

definition placeholder :: "element \<Rightarrow> string" where
  "placeholder e = (if tagName e = ''INPUT'' then bullets else blankedSpan)"

text \<open>
  What the content of the element \<open>i\<close> reads once \<open>s\<close> has been assigned to it the way
  blanking and restoring assign: to the value of an input, to the \<^verbatim>\<open>innerHTML\<close> of any
  other element. \<open>reread\<close> takes the kind of element from the document, \<open>readBack\<close> from
  the flag \<open>inp\<close>.
\<close>

definition readBack :: "window \<Rightarrow> nat \<Rightarrow> bool \<Rightarrow> string \<Rightarrow> string" where
  "readBack d i inp s = (if inp then valueRead d i s else markupRead d i s)"

definition reread :: "window \<Rightarrow> nat \<Rightarrow> string \<Rightarrow> string" where
  "reread d i s = readBack d i (tagName (elements d ! i) = ''INPUT'') s"


text \<open>Two states of the window with the same host: the same oracles.\<close>

definition sameHost :: "window \<Rightarrow> window \<Rightarrow> bool" where
  "sameHost d d' =
     (mathRandom d' = mathRandom d \<and> markupRead d' = markupRead d \<and> markupText d' = markupText d
      \<and> markupValue d' = markupValue d \<and> valueRead d' = valueRead d)"

text \<open>
  Notions for following one element \<open>i\<close> through blanking and restoring, \<open>d0\<close> being the
  window at the start; \<open>inp\<close> says that the element is an input, \<open>m\<close> is a content.
  \<open>lastFor i bs\<close> is the entry for \<open>i\<close> that a replay of \<open>bs\<close> in order applies last.
  \<open>slack\<close> compares the number of snapshots taken with the number of entries kept.
\<close>

definition protectedAt :: "nat \<Rightarrow> selector \<Rightarrow> bool \<Rightarrow> window \<Rightarrow> window \<Rightarrow> bool" where
  "protectedAt i sel inp d0 d =
     (i < length (elements d) \<and> hasParentNode (elements d ! i) \<and> matches sel (elements d ! i)
      \<and> ((tagName (elements d ! i) = ''INPUT'') = inp) \<and> sameHost d0 d)"

definition attachedAt :: "nat \<Rightarrow> bool \<Rightarrow> window \<Rightarrow> window \<Rightarrow> bool" where
  "attachedAt i inp d0 d =
     (i < length (elements d) \<and> hasParentNode (elements d ! i)
      \<and> ((tagName (elements d ! i) = ''INPUT'') = inp) \<and> sameHost d0 d)"



fun lastFor :: "nat \<Rightarrow> backup list \<Rightarrow> backup option" where
  "lastFor i [] = None"
| "lastFor i (b # bs) =
     (case lastFor i bs of Some b' \<Rightarrow> Some b' | None \<Rightarrow> if elementRef b = i then Some b else None)"


definition slack :: "session_manager \<times> window \<Rightarrow> int" where
  "slack st = int (randomCalls (snd st)) - int (length (sensitiveDataBackup (fst st)))"

text \<open>
  The last segment of a key: what follows its last underscore. \<open>drawn c0 st\<close> says that
  every key of the backup ends in a suffix drawn at one of the calls of \<^verbatim>\<open>Math.random\<close>
  from the \<open>c0\<close>-th on.
\<close>

definition keySuffix :: "string \<Rightarrow> string" where
  "keySuffix k = rev (takeWhile (\<lambda>c. c \<noteq> CHR ''_'') (rev k))"

definition drawn :: "nat \<Rightarrow> session_manager \<times> window \<Rightarrow> bool" where
  "drawn c0 st =
     (c0 \<le> randomCalls (snd st)
      \<and> (\<forall>kv \<in> set (sensitiveDataBackup (fst st)).
            \<exists>k. c0 \<le> k \<and> k < randomCalls (snd st) \<and> keySuffix (fst kv) = mathRandom (snd st) k))"

text \<open>
  For the round trip of an element \<open>i\<close> whose state before blanking was \<open>e0\<close>: it has not
  been visited and holds no entry, or its last entry holds what was read from \<open>e0\<close>.
\<close>

definition untouchedAt :: "nat \<Rightarrow> element \<Rightarrow> session_manager \<times> window \<Rightarrow> bool" where
  "untouchedAt i e0 st =
     (elements (snd st) ! i = e0 \<and> lastFor i (map snd (sensitiveDataBackup (fst st))) = None)"

definition capturedAt :: "nat \<Rightarrow> element \<Rightarrow> session_manager \<times> window \<Rightarrow> bool" where
  "capturedAt i e0 st =
     (i < length (elements (snd st)) \<and> hasParentNode (elements (snd st) ! i)
      \<and> tagName (elements (snd st) ! i) = tagName e0
      \<and> (\<exists>b. lastFor i (map snd (sensitiveDataBackup (fst st))) = Some b
             \<and> originalContent b = innerHTML e0 \<and> originalValue b = val e0))"

text \<open>A page whose one element matches two of the selectors, and a page with an input.\<close>

definition twoClassPage :: window where
  "twoClassPage = pageOf [divWith [''api-key'', ''user-token''] ''secret'']"

definition passwordField :: element where
  "passwordField =
     \<lparr>tagName = ''INPUT'', className = [], classList = [], dataSensitive = False,
      typeAttr = ''password'', innerHTML = [], val = ''hunter2'', textContent = [],
      hasParentNode = True\<rparr>"

text \<open>
  Two like regions on a host where \<^verbatim>\<open>Math.random\<close> yields the same suffix from its third
  call on; a page with a protected \<^verbatim>\<open>textarea\<close>, and the placeholder as a
  \<^verbatim>\<open>textarea\<close> reads it back.
\<close>

definition likeRegions :: window where
  "likeRegions =
     (pageOf [divWith [''api-key''] ''one'', divWith [''api-key''] ''two''])
       \<lparr>mathRandom := (\<lambda>k. if k < 2 then replicate k CHR ''z'' else ''same'')\<rparr>"

definition noteArea :: element where
  "noteArea =
     \<lparr>tagName = ''TEXTAREA'', className = ''personal-data'', classList = [''personal-data''],
      dataSensitive = False, typeAttr = [], innerHTML = ''note'', val = ''note'',
      textContent = ''note'', hasParentNode = True\<rparr>"


text \<open>The contents of the elements of the document, in order.\<close>

definition contents :: "window option \<Rightarrow> string list" where
  "contents w = (case w of None \<Rightarrow> [] | Some d \<Rightarrow> map content (elements d))"

text \<open>On a new manager: blank at 1, blank again at 2, then restore.\<close>

definition blankBlankRestore :: "window \<Rightarrow> window option" where
  "blankBlankRestore d =
     snd (restoreSensitiveData
            (blankSensitiveData 2 (blankSensitiveData 1 (newSessionManager plainEnv None, Some d))))"

text \<open>A page with two protected regions, blanked at 1, blanked again at 2, then restored.\<close>

definition twoRegions :: "session_manager \<times> window option" where
  "twoRegions = (newSessionManager plainEnv None, Some (pageOf [divWith [''api-key''] ''secret'', passwordField]))"

definition blankedOnce :: "session_manager \<times> window option" where
  "blankedOnce = blankSensitiveData 1 twoRegions"

definition blankedTwice :: "session_manager \<times> window option" where
  "blankedTwice = blankSensitiveData 2 blankedOnce"

section \<open>Properties\<close>

subsection \<open>Evaluation\<close>

text \<open>The definitions a concrete run unfolds.\<close>

lemmas eval_defs = querySelectorAll_def sensitiveSelectors_def clearWindowCaches_def sensitiveKey_def
  createLockScreen_def makeVisible_def makeHidden_def hideLockScreen_def restoreElement_def
  validateUnlock_def newSessionManager_def truthyString_def plainEnv_def pageOf_def divWith_def
  classList_add_def classList_remove_def apiProvides_def generateElementId_def addClass_def removeClass_def isTextarea_def numberToString_def
  lockDuration_def digits.simps Let_def

lemmas tracker_defs = newActivityTracker_def noOptions_def startTracking_def assignOptions_def
  setupRendererListeners_def setupMainProcessListeners_def getActivityEvents_def baseEvents_def
  addListener_def resetTimer_def handleActivity_def eventType_def truthyNumber_def truthyString_def minutes_def
  stopTracking_def timerFires_def warningTimerFires_def deadline_def hostDelay_def checkAudioActivity_def
  visibilityEvent_def handleVisibilityChange_def focusEvent_def handleFocusChange_def userActivityMessage_def
  audioCheckTick_def documentEvent_def plainEnv_def pageOf_def apiProvides_def

lemmas guard_defs = newAFKGuard_def noGuardOptions_def startedGuard_def lockedGuard_def start_def stop_def
  record_effects_def guardStopTracking_def guardStartTracking_def sessionEmits_def trackerEmits_def
  guardLockSession_def guardUnlockSession_def guardHandleActivity_def guardTimerFires_def
  guardWarningTimerFires_def guardObserveAll_def configure_def

lemmas region_defs = twoRegions_def blankedOnce_def blankedTwice_def twoClassPage_def passwordField_def
  content_def placeholder_def likeRegions_def noteArea_def blankBlankRestore_def contents_def

subsection \<open>The lock flag through blanking\<close>

lemma blankElement_isLocked: "isLocked (fst (blankElement now i st)) = isLocked (fst st)"
  by (cases st) (simp add: Let_def)

lemma fold_blankElement_isLocked: "isLocked (fst (fold (blankElement now) is st)) = isLocked (fst st)"
  by (induction "is" arbitrary: st) (simp_all add: blankElement_isLocked del: blankElement.simps)

lemma blankSelector_isLocked: "isLocked (fst (blankSelector now sel st)) = isLocked (fst st)"
  by (cases st) (simp add: fold_blankElement_isLocked del: blankElement.simps)

lemma fold_blankSelector_isLocked: "isLocked (fst (fold (blankSelector now) sels st)) = isLocked (fst st)"
  by (induction sels arbitrary: st) (simp_all add: blankSelector_isLocked del: blankSelector.simps)

lemma blankSensitiveData_isLocked: "isLocked (fst (blankSensitiveData now st)) = isLocked (fst st)"
proof (cases st)
  case (Pair sm w)
  show ?thesis
  proof (cases w)
    case None
    with Pair show ?thesis by simp
  next
    case (Some d)
    have "isLocked (fst (fold (blankSelector now) sensitiveSelectors (sm, d))) = isLocked sm"
      by (simp add: fold_blankSelector_isLocked)
    with Pair Some show ?thesis
      by (auto split: prod.splits)
  qed
qed

lemma blankSensitiveData_window: "\<exists>sm' d'. blankSensitiveData now (sm, Some d) = (sm', Some d')"
  by (simp split: prod.splits)

subsection \<open>The backup is empty whenever the session is unlocked\<close>

lemma lockSession_inv: "vault_inv st \<Longrightarrow> vault_inv (fst (snd (lockSession now st)))"
proof (cases st)
  case (Pair sm w)
  assume inv: "vault_inv st"
  show ?thesis
  proof (cases "isLocked sm")
    case True
    with Pair inv show ?thesis by simp
  next
    case False
    show ?thesis
    proof (cases w)
      case None
      with Pair False inv show ?thesis
        by (simp add: vault_inv_def)
    next
      case (Some d)
      obtain sm' d' where b: "blankSensitiveData now (sm\<lparr>isLocked := True, lockTime := Some now\<rparr>, Some d) = (sm', Some d')"
        using blankSensitiveData_window by blast
      have "isLocked (fst (blankSensitiveData now (sm\<lparr>isLocked := True, lockTime := Some now\<rparr>, Some d)))"
        by (simp add: blankSensitiveData_isLocked del: blankSensitiveData.simps)
      with b have l: "isLocked sm'" by simp
      with Pair Some False b show ?thesis
        by (simp add: vault_inv_def Let_def del: blankSensitiveData.simps split: sum.splits)
    qed
  qed
qed

lemma unlockSession_inv: "vault_inv st \<Longrightarrow> vault_inv (fst (snd (unlockSession penv now c st)))"
  by (cases st; cases "snd st")
     (auto simp add: vault_inv_def hideLockScreen_def Let_def)

lemma session_step_inv: "vault_inv st \<Longrightarrow> vault_inv (session_step penv op st)"
  by (cases op) (simp_all add: session_step_def lockSession_inv unlockSession_inv)

lemma fold_session_step_inv: "vault_inv st \<Longrightarrow> vault_inv (fold (session_step penv) ops st)"
  by (induction ops arbitrary: st) (simp_all add: session_step_inv)

text \<open>
  C1. Start from a new session manager, in a process with or without a window, and run any
  sequence of \<^verbatim>\<open>lockSession\<close> and \<^verbatim>\<open>unlockSession\<close> calls, with any credentials. After
  each of them (after the first \<open>k\<close> operations, for every \<open>k\<close>): if \<open>isLocked\<close> is
  false, \<open>sensitiveDataBackup\<close> is empty.
\<close>

theorem vault_empty_when_unlocked:
  "\<not> isLocked (fst (fold (session_step penv) (take k ops) (newSessionManager penv m, w)))
   \<longrightarrow> sensitiveDataBackup (fst (fold (session_step penv) (take k ops) (newSessionManager penv m, w))) = []"
proof -
  have "vault_inv (newSessionManager penv m, w)"
    by (simp add: vault_inv_def newSessionManager_def)
  then have "vault_inv (fold (session_step penv) (take k ops) (newSessionManager penv m, w))"
    by (rule fold_session_step_inv)
  then show ?thesis by (auto simp add: vault_inv_def)
qed

theorem vault_empty_when_unlocked_witness:
  "\<not> isLocked (fst (fold (session_step plainEnv) (take 2 [LockOp 10, UnlockOp 20 NoCredentials, LockOp 30])
       (newSessionManager plainEnv None, Some (pageOf [divWith [''api-key''] ''secret'']))))
   \<and> sensitiveDataBackup (fst (fold (session_step plainEnv) (take 2 [LockOp 10, UnlockOp 20 NoCredentials, LockOp 30])
       (newSessionManager plainEnv None, Some (pageOf [divWith [''api-key''] ''secret''])))) = []"
  using vault_empty_when_unlocked [of plainEnv 2 "[LockOp 10, UnlockOp 20 NoCredentials, LockOp 30]" None
      "Some (pageOf [divWith [''api-key''] ''secret''])"]
  by (simp add: session_step_def eval_defs)

subsection \<open>Unlock attempts\<close>

text \<open>
  C5. An unlock attempt on a locked session whose validation fails changes nothing: the
  manager (so \<open>isLocked\<close> and \<open>sensitiveDataBackup\<close>) and the window are as before, the only
  effect is the emission of \<^verbatim>\<open>unlock-failed\<close> with the method, and the caller gets \<open>False\<close>.
\<close>

theorem failed_unlock_is_atomic:
  "isLocked sm \<Longrightarrow> \<not> validateUnlock penv c sm \<Longrightarrow>
   unlockSession penv now c (sm, w) = (False, (sm, w), [Emit (UnlockFailed (unlockMethod sm))])"
  by simp

theorem failed_unlock_is_atomic_witness:
  "isLocked (fst lockedPage) \<and> sensitiveDataBackup (fst lockedPage) \<noteq> []
   \<and> \<not> validateUnlock plainEnv (Credentials (Some ''guess'')) (fst lockedPage)
   \<and> unlockSession plainEnv 20 (Credentials (Some ''guess'')) lockedPage
       = (False, lockedPage, [Emit (UnlockFailed ''password'')])"
  using failed_unlock_is_atomic [of "fst lockedPage" plainEnv "Credentials (Some ''guess'')" 20 "snd lockedPage"]
  by (simp add: lockedPage_def eval_defs getStoredPassword_def)

lemma failed_attempts_leave_state:
  "isLocked sm \<Longrightarrow> \<forall>a\<in>set attempts. \<not> validateUnlock penv (snd a) sm \<Longrightarrow>
   unlockAttempts penv attempts (sm, w) = (replicate (length attempts) False, (sm, w))"
  by (induction attempts) simp_all

text \<open>
  C4, as the code has it. \<^verbatim>\<open>validateUnlock\<close> keeps no count of failures and there is no
  cooldown: after any number of consecutive failed attempts on a locked session, which
  leave the state as it was, an attempt with credentials that validate succeeds at once,
  whatever the time, and unlocks the session.
\<close>

theorem no_cooldown_after_failures:
  "isLocked sm \<Longrightarrow> \<forall>a\<in>set attempts. \<not> validateUnlock penv (snd a) sm \<Longrightarrow>
   validateUnlock penv c sm \<Longrightarrow>
   unlockAttempts penv attempts (sm, w) = (replicate (length attempts) False, (sm, w))
   \<and> fst (unlockSession penv now c (snd (unlockAttempts penv attempts (sm, w))))
   \<and> \<not> isLocked (fst (fst (snd (unlockSession penv now c (snd (unlockAttempts penv attempts (sm, w)))))))"
proof -
  assume l: "isLocked sm" and f: "\<forall>a\<in>set attempts. \<not> validateUnlock penv (snd a) sm"
    and v: "validateUnlock penv c sm"
  have a: "unlockAttempts penv attempts (sm, w) = (replicate (length attempts) False, (sm, w))"
    using l f by (rule failed_attempts_leave_state)
  show ?thesis
    unfolding a using l v by (cases w) (simp_all add: Let_def)
qed

text \<open>
  Five wrong passwords within five milliseconds, then the right one a millisecond later:
  the sixth attempt succeeds, where the claim has it rejected until the cooldown has passed.
\<close>

theorem cooldown_counterexample:
  "fst (unlockAttempts plainEnv
      [(21, Credentials (Some ''guess'')), (22, Credentials (Some ''guess'')),
       (23, Credentials (Some ''guess'')), (24, Credentials (Some ''guess'')),
       (25, Credentials (Some ''guess'')), (26, Credentials (Some ''default''))] lockedPage)
   = [False, False, False, False, False, True]"
  by (simp add: lockedPage_def eval_defs getStoredPassword_def)

theorem no_cooldown_after_failures_witness:
  "unlockAttempts plainEnv (map (\<lambda>t. (t, Credentials (Some ''guess''))) [21, 22, 23, 24, 25]) lockedPage
     = ([False, False, False, False, False], lockedPage)
   \<and> fst (unlockSession plainEnv 26 (Credentials (Some ''default''))
        (snd (unlockAttempts plainEnv (map (\<lambda>t. (t, Credentials (Some ''guess''))) [21, 22, 23, 24, 25]) lockedPage)))
   \<and> \<not> isLocked (fst (fst (snd (unlockSession plainEnv 26 (Credentials (Some ''default''))
        (snd (unlockAttempts plainEnv (map (\<lambda>t. (t, Credentials (Some ''guess''))) [21, 22, 23, 24, 25]) lockedPage))))))"
  using no_cooldown_after_failures [of "fst lockedPage" "map (\<lambda>t. (t, Credentials (Some ''guess''))) [21, 22, 23, 24, 25]"
      plainEnv "Credentials (Some ''default'')" "snd lockedPage" 26]
  by (simp add: lockedPage_def eval_defs getStoredPassword_def)

subsection \<open>Debounce\<close>

lemma pulse_state:
  "snd (handleActivity t0 ev0 w t) \<noteq> [] \<Longrightarrow>
   isTracking (fst (handleActivity t0 ev0 w t)) \<and> lastActivity (fst (handleActivity t0 ev0 w t)) = t0"
  by (simp add: handleActivity_def resetTimer_def split: if_splits)

lemma debounced_call:
  "isTracking t \<Longrightarrow> now - lastActivity t < 100 \<Longrightarrow> handleActivity now ev w t = (t, [])"
  by (simp add: handleActivity_def)

lemma debounced_calls:
  "isTracking t \<Longrightarrow> \<forall>e\<in>set evs. fst e - lastActivity t < 100 \<Longrightarrow> observeAll evs w t = (t, [])"
  by (induction evs) (simp_all add: debounced_call)

text \<open>
  C7. When a call of \<^verbatim>\<open>handleActivity\<close> at time \<open>t0\<close> has produced a pulse (it had
  effects), every series of further calls that arrive less than 100ms after \<open>t0\<close> returns
  normally and leaves the tracker exactly as the pulse left it (\<open>lastActivity\<close> and both
  timers included) with no effect at all: no \<^verbatim>\<open>activity-detected\<close>, no report.
\<close>

theorem debounce_contract:
  "snd (handleActivity t0 ev0 w t) \<noteq> [] \<Longrightarrow> \<forall>e\<in>set evs. fst e - t0 < 100 \<Longrightarrow>
   observeAll evs w (fst (handleActivity t0 ev0 w t)) = (fst (handleActivity t0 ev0 w t), [])"
  using pulse_state [of t0 ev0 w t] by (simp add: debounced_calls)

theorem debounce_contract_witness:
  "snd (handleActivity 1000 (Some ''keydown'') (Some (pageOf [])) runningTracker) \<noteq> []
   \<and> observeAll [(1001, Some ''mousemove''), (1050, None), (1099, Some ''scroll'')] (Some (pageOf []))
        (fst (handleActivity 1000 (Some ''keydown'') (Some (pageOf [])) runningTracker))
      = (fst (handleActivity 1000 (Some ''keydown'') (Some (pageOf [])) runningTracker), [])"
  using debounce_contract [of 1000 "Some ''keydown''" "Some (pageOf [])" runningTracker
      "[(1001, Some ''mousemove''), (1050, None), (1099, Some ''scroll'')]"]
  by (simp add: runningTracker_def tracker_defs)

subsection \<open>Starting the tracker\<close>

lemma startTracking_arms:
  "enabled t \<Longrightarrow> \<not> isTracking t \<Longrightarrow>
   snd (startTracking now opts w ipc t) = [Emit TrackingStarted]
   \<and> isTracking (fst (startTracking now opts w ipc t))
   \<and> lastActivity (fst (startTracking now opts w ipc t)) = now
   \<and> timeout (fst (startTracking now opts w ipc t)) = (case optTimeout opts of Some x \<Rightarrow> x | None \<Rightarrow> timeout t)
   \<and> warningTime (fst (startTracking now opts w ipc t))
       = (case optWarningTime opts of Some x \<Rightarrow> x | None \<Rightarrow> warningTime t)
   \<and> warningTimer (fst (startTracking now opts w ipc t))
       = Some \<lparr>armedAt = now,
               delay = (case optTimeout opts of Some x \<Rightarrow> x | None \<Rightarrow> timeout t)
                       - (case optWarningTime opts of Some x \<Rightarrow> x | None \<Rightarrow> warningTime t),
               fired = False\<rparr>
   \<and> timer (fst (startTracking now opts w ipc t))
       = Some \<lparr>armedAt = now, delay = (case optTimeout opts of Some x \<Rightarrow> x | None \<Rightarrow> timeout t),
               fired = False\<rparr>"
  by (simp add: startTracking_def assignOptions_def setupRendererListeners_def
      setupMainProcessListeners_def resetTimer_def Let_def)

text \<open>The durations the constructor sets.\<close>

lemma constructor_timeout:
  "timeout (newActivityTracker penv n copts)
     = (case optTimeout copts of
          Some x \<Rightarrow> if x \<noteq> 0 then x
                    else (case AFK_TIMEOUT_MINUTES penv of Some m \<Rightarrow> if m \<noteq> 0 then m * 60000 else 600000
                          | None \<Rightarrow> 600000)
        | None \<Rightarrow> (case AFK_TIMEOUT_MINUTES penv of Some m \<Rightarrow> if m \<noteq> 0 then m * 60000 else 600000
                    | None \<Rightarrow> 600000))"
  by (simp add: newActivityTracker_def truthyNumber_def minutes_def split: option.splits)

lemma constructor_warningTime:
  "warningTime (newActivityTracker penv n copts)
     = (case optWarningTime copts of
          Some x \<Rightarrow> if x \<noteq> 0 then x
                    else (case AFK_WARNING_MINUTES penv of Some m \<Rightarrow> if m \<noteq> 0 then m * 60000 else 120000
                          | None \<Rightarrow> 120000)
        | None \<Rightarrow> (case AFK_WARNING_MINUTES penv of Some m \<Rightarrow> if m \<noteq> 0 then m * 60000 else 120000
                    | None \<Rightarrow> 120000))"
  by (simp add: newActivityTracker_def truthyNumber_def minutes_def split: option.splits)

text \<open>
  C3, as the code has it. No configuration is rejected: neither the constructor nor
  \<^verbatim>\<open>startTracking\<close> has a failing outcome or looks at the durations. Whenever the tracker
  is enabled and not yet tracking, \<^verbatim>\<open>startTracking(options)\<close> at time \<open>now\<close> emits
  \<^verbatim>\<open>tracking-started\<close>, takes over the durations the options give, whatever they are, and
  calls \<^verbatim>\<open>setTimeout\<close> with the delays \<open>timeout - warningTime\<close> and \<open>timeout\<close>: also
  when the warning time is not below the timeout or a duration is zero or negative. The
  host runs the callbacks from \<open>now + (timeout - warningTime)\<close> and \<open>now + timeout\<close> on
  when the delay lies between 1 and \<^verbatim>\<open>2^31 - 1\<close>, and from \<open>now + 1\<close> on for any other
  delay. The constructor leaves the tracker idle and takes each duration from the options
  when it is given and not zero, else from the environment (minutes, times 60000) when
  that is a number and not zero, else the default, 600000 and 120000; the product is exact
  below \<^verbatim>\<open>2^53\<close>.
\<close>

theorem start_never_rejects:
  assumes "enabled t" and "\<not> isTracking t"
  shows "snd (startTracking now opts w ipc t) = [Emit TrackingStarted]
   \<and> isTracking (fst (startTracking now opts w ipc t))
   \<and> timeout (fst (startTracking now opts w ipc t)) = (case optTimeout opts of Some x \<Rightarrow> x | None \<Rightarrow> timeout t)
   \<and> warningTime (fst (startTracking now opts w ipc t))
       = (case optWarningTime opts of Some x \<Rightarrow> x | None \<Rightarrow> warningTime t)
   \<and> warningTimer (fst (startTracking now opts w ipc t))
       = Some \<lparr>armedAt = now,
               delay = timeout (fst (startTracking now opts w ipc t))
                       - warningTime (fst (startTracking now opts w ipc t)),
               fired = False\<rparr>
   \<and> timer (fst (startTracking now opts w ipc t))
       = Some \<lparr>armedAt = now, delay = timeout (fst (startTracking now opts w ipc t)), fired = False\<rparr>
   \<and> map_option deadline (warningTimer (fst (startTracking now opts w ipc t)))
       = Some (if 1 \<le> timeout (fst (startTracking now opts w ipc t))
                       - warningTime (fst (startTracking now opts w ipc t))
                  \<and> timeout (fst (startTracking now opts w ipc t))
                       - warningTime (fst (startTracking now opts w ipc t)) \<le> 2147483647
               then now + (timeout (fst (startTracking now opts w ipc t))
                           - warningTime (fst (startTracking now opts w ipc t)))
               else now + 1)
   \<and> map_option deadline (timer (fst (startTracking now opts w ipc t)))
       = Some (if 1 \<le> timeout (fst (startTracking now opts w ipc t))
                  \<and> timeout (fst (startTracking now opts w ipc t)) \<le> 2147483647
               then now + timeout (fst (startTracking now opts w ipc t))
               else now + 1)
   \<and> \<not> isTracking (newActivityTracker penv n copts)
   \<and> enabled (newActivityTracker penv n copts)
       = (optEnabled copts \<noteq> Some False \<and> AFK_ENABLED penv \<noteq> Some ''false'')
   \<and> (optTimeout copts = Some x \<and> x \<noteq> 0 \<longrightarrow> timeout (newActivityTracker penv n copts) = x)
   \<and> (optTimeout copts \<in> {None, Some 0} \<and> AFK_TIMEOUT_MINUTES penv = Some m \<and> m \<noteq> 0
        \<and> \<bar>m\<bar> * 60000 < 2 ^ 53
        \<longrightarrow> timeout (newActivityTracker penv n copts) = m * 60000)
   \<and> (optTimeout copts \<in> {None, Some 0} \<and> AFK_TIMEOUT_MINUTES penv \<in> {None, Some 0}
        \<longrightarrow> timeout (newActivityTracker penv n copts) = 600000)
   \<and> (optWarningTime copts = Some y \<and> y \<noteq> 0 \<longrightarrow> warningTime (newActivityTracker penv n copts) = y)
   \<and> (optWarningTime copts \<in> {None, Some 0} \<and> AFK_WARNING_MINUTES penv = Some k \<and> k \<noteq> 0
        \<and> \<bar>k\<bar> * 60000 < 2 ^ 53
        \<longrightarrow> warningTime (newActivityTracker penv n copts) = k * 60000)
   \<and> (optWarningTime copts \<in> {None, Some 0} \<and> AFK_WARNING_MINUTES penv \<in> {None, Some 0}
        \<longrightarrow> warningTime (newActivityTracker penv n copts) = 120000)"
proof -
  define t' where "t' = fst (startTracking now opts w ipc t)"
  have a: "snd (startTracking now opts w ipc t) = [Emit TrackingStarted] \<and> isTracking t'
      \<and> timeout t' = (case optTimeout opts of Some x \<Rightarrow> x | None \<Rightarrow> timeout t)
      \<and> warningTime t' = (case optWarningTime opts of Some x \<Rightarrow> x | None \<Rightarrow> warningTime t)
      \<and> warningTimer t' = Some \<lparr>armedAt = now, delay = timeout t' - warningTime t', fired = False\<rparr>
      \<and> timer t' = Some \<lparr>armedAt = now, delay = timeout t', fired = False\<rparr>"
    using startTracking_arms [OF assms, of now opts w ipc] by (simp add: t'_def)
  have d: "map_option deadline (warningTimer t')
             = Some (if 1 \<le> timeout t' - warningTime t' \<and> timeout t' - warningTime t' \<le> 2147483647
                     then now + (timeout t' - warningTime t') else now + 1)
           \<and> map_option deadline (timer t')
             = Some (if 1 \<le> timeout t' \<and> timeout t' \<le> 2147483647 then now + timeout t' else now + 1)"
    using a by (simp add: deadline_def hostDelay_def)
  have c0: "\<not> isTracking (newActivityTracker penv n copts)
      \<and> enabled (newActivityTracker penv n copts)
          = (optEnabled copts \<noteq> Some False \<and> AFK_ENABLED penv \<noteq> Some ''false'')"
    by (simp add: newActivityTracker_def)
  have c1: "(optTimeout copts = Some x \<and> x \<noteq> 0 \<longrightarrow> timeout (newActivityTracker penv n copts) = x)
      \<and> (optTimeout copts \<in> {None, Some 0} \<and> AFK_TIMEOUT_MINUTES penv = Some m \<and> m \<noteq> 0
           \<and> \<bar>m\<bar> * 60000 < 2 ^ 53
           \<longrightarrow> timeout (newActivityTracker penv n copts) = m * 60000)
      \<and> (optTimeout copts \<in> {None, Some 0} \<and> AFK_TIMEOUT_MINUTES penv \<in> {None, Some 0}
           \<longrightarrow> timeout (newActivityTracker penv n copts) = 600000)"
    by (auto simp add: constructor_timeout)
  have c2: "(optWarningTime copts = Some y \<and> y \<noteq> 0 \<longrightarrow> warningTime (newActivityTracker penv n copts) = y)
      \<and> (optWarningTime copts \<in> {None, Some 0} \<and> AFK_WARNING_MINUTES penv = Some k \<and> k \<noteq> 0
           \<and> \<bar>k\<bar> * 60000 < 2 ^ 53
           \<longrightarrow> warningTime (newActivityTracker penv n copts) = k * 60000)
      \<and> (optWarningTime copts \<in> {None, Some 0} \<and> AFK_WARNING_MINUTES penv \<in> {None, Some 0}
           \<longrightarrow> warningTime (newActivityTracker penv n copts) = 120000)"
    by (auto simp add: constructor_warningTime)
  show ?thesis
    unfolding t'_def [symmetric] using a d c0 c1 c2 by blast
qed

theorem start_never_rejects_witness:
  "specInvalidConfiguration (timeout misconfiguredTracker) (warningTime misconfiguredTracker)
   \<and> enabled misconfiguredTracker \<and> \<not> isTracking misconfiguredTracker
   \<and> timeout misconfiguredTracker = 1000 \<and> warningTime misconfiguredTracker = 2000
   \<and> snd (startTracking 0 noOptions None True misconfiguredTracker) = [Emit TrackingStarted]
   \<and> isTracking (fst (startTracking 0 noOptions None True misconfiguredTracker))
   \<and> warningTimer (fst (startTracking 0 noOptions None True misconfiguredTracker))
       = Some \<lparr>armedAt = 0, delay = - 1000, fired = False\<rparr>
   \<and> map_option deadline (warningTimer (fst (startTracking 0 noOptions None True misconfiguredTracker)))
       = Some 1
   \<and> map_option deadline (timer (fst (startTracking 0 noOptions None True misconfiguredTracker)))
       = Some 1000
   \<and> timeout (newActivityTracker (plainEnv\<lparr>AFK_TIMEOUT_MINUTES := Some 5\<rparr>) 0 noOptions) = 300000"
  using start_never_rejects [of misconfiguredTracker 0 noOptions None True plainEnv 0
      "\<lparr>optTimeout = Some 1000, optWarningTime = Some 2000, optSensitivity = None, optEnabled = None\<rparr>"
      1000 5 2000 5]
    start_never_rejects [of misconfiguredTracker 0 noOptions None True "plainEnv\<lparr>AFK_TIMEOUT_MINUTES := Some 5\<rparr>" 0
      noOptions 1000 5 2000 5]
  unfolding misconfiguredTracker_def [symmetric]
  by (simp add: misconfiguredTracker_def specInvalidConfiguration_def tracker_defs)

text \<open>
  A tracker built with timeout 1000 and warning time 2000, a configuration the claim has
  rejected: it starts, and the warning timer is armed with the negative delay -1000.
\<close>

theorem invalid_configuration_counterexample:
  "specInvalidConfiguration 1000 2000
   \<and> timeout misconfiguredTracker = 1000 \<and> warningTime misconfiguredTracker = 2000
   \<and> snd (startTracking 0 noOptions None True misconfiguredTracker) = [Emit TrackingStarted]
   \<and> isTracking (fst (startTracking 0 noOptions None True misconfiguredTracker))
   \<and> warningTimer (fst (startTracking 0 noOptions None True misconfiguredTracker))
       = Some \<lparr>armedAt = 0, delay = - 1000, fired = False\<rparr>
   \<and> timer (fst (startTracking 0 noOptions None True misconfiguredTracker))
       = Some \<lparr>armedAt = 0, delay = 1000, fired = False\<rparr>"
  by (simp add: misconfiguredTracker_def specInvalidConfiguration_def tracker_defs)

subsection \<open>After the inactivity timeout\<close>

text \<open>
  A tracker on its own, started at 0 with the defaults: the timeout callback runs at 600000
  and emits \<^verbatim>\<open>inactivity-timeout\<close>; the tracker is still tracking, and an activity event
  half a second later arms both timers again.
\<close>

theorem timer_rearmed_counterexample:
  "snd (timerFires 600000 runningTracker) = [Emit InactivityTimeout]
   \<and> snd (handleActivity 600500 (Some ''mousemove'') (Some (pageOf [])) (fst (timerFires 600000 runningTracker)))
       = [Emit (ActivityDetected ''mousemove'' 600500)]
   \<and> timer (fst (handleActivity 600500 (Some ''mousemove'') (Some (pageOf [])) (fst (timerFires 600000 runningTracker))))
       = Some \<lparr>armedAt = 600500, delay = 600000, fired = False\<rparr>
   \<and> warningTimer (fst (handleActivity 600500 (Some ''mousemove'') (Some (pageOf [])) (fst (timerFires 600000 runningTracker))))
       = Some \<lparr>armedAt = 600500, delay = 480000, fired = False\<rparr>"
  by (simp add: runningTracker_def tracker_defs)

subsection \<open>Sensitivity\<close>

text \<open>
  At sensitivity \<^verbatim>\<open>low\<close> the 5s audio check still runs and playing media gives a pulse,
  though media playback is not among the kinds the claim enables at that level.
\<close>

theorem media_at_low_counterexample:
  "sensitivity lowTracker = ''low''
   \<and> MediaPlayback \<notin> set (specEnabledKinds Low)
   \<and> snd (audioCheckTick 5000 [playing] (Some (pageOf [])) lowTracker)
       = [Emit (ActivityDetected ''audio-activity'' 5000)]"
  by (simp add: lowTracker_def playing_def tracker_defs)

subsection \<open>The guard after the inactivity timeout\<close>

text \<open>Blanking leaves the overlay and the body as they are, so whether the overlay can be shown.\<close>

lemma blankElement_overlay:
  "lockScreen (snd (blankElement now i st)) = lockScreen (snd st)
   \<and> body (snd (blankElement now i st)) = body (snd st)"
  by (cases st) (simp add: Let_def)

lemma fold_blankElement_overlay:
  "lockScreen (snd (fold (blankElement now) is st)) = lockScreen (snd st)
   \<and> body (snd (fold (blankElement now) is st)) = body (snd st)"
  by (induction "is" arbitrary: st) (simp_all add: blankElement_overlay del: blankElement.simps)

lemma blankSelector_overlay:
  "lockScreen (snd (blankSelector now sel st)) = lockScreen (snd st)
   \<and> body (snd (blankSelector now sel st)) = body (snd st)"
  using fold_blankElement_overlay [of now "querySelectorAll sel (snd st)" st] by (cases st) simp

lemma fold_blankSelector_overlay:
  "lockScreen (snd (fold (blankSelector now) sels st)) = lockScreen (snd st)
   \<and> body (snd (fold (blankSelector now) sels st)) = body (snd st)"
  by (induction sels arbitrary: st) (simp_all add: blankSelector_overlay del: blankSelector.simps)

lemma blankSensitiveData_overlay:
  "canShowLockScreen w \<Longrightarrow> canShowLockScreen (snd (blankSensitiveData now (sm, w)))"
proof (cases w)
  case None
  then show ?thesis by (simp add: canShowLockScreen_def)
next
  case (Some d)
  assume c: "canShowLockScreen w"
  obtain sm' d' where f: "fold (blankSelector now) sensitiveSelectors (sm, d) = (sm', d')"
    by (cases "fold (blankSelector now) sensitiveSelectors (sm, d)") simp
  have "lockScreen d' = lockScreen d \<and> body d' = body d"
    using fold_blankSelector_overlay [of now sensitiveSelectors "(sm, d)"] f by simp
  with c Some f show ?thesis
    by (auto simp add: canShowLockScreen_def)
qed

text \<open>When the overlay can be shown, locking an unlocked session runs to its last emission.\<close>

lemma lockSession_completes:
  assumes "\<not> isLocked sm" and "canShowLockScreen w"
  shows "\<exists>sm' w' calls. lockSession now (sm, w)
            = (Inr (), (sm', w'), Emit MemoryCleared # calls @ [Emit (SessionLocked now)])
          \<and> isLocked sm' \<and> (calls = [] \<or> calls = [ApiCall ''notifySessionLock''])"
proof -
  obtain sm1 w1 where b: "blankSensitiveData now (sm\<lparr>isLocked := True, lockTime := Some now\<rparr>, w) = (sm1, w1)"
    by (cases "blankSensitiveData now (sm\<lparr>isLocked := True, lockTime := Some now\<rparr>, w)") simp
  have l: "isLocked sm1"
    using blankSensitiveData_isLocked [of now "(sm\<lparr>isLocked := True, lockTime := Some now\<rparr>, w)"] b by simp
  have c: "canShowLockScreen w1"
    using blankSensitiveData_overlay [OF assms(2), of now "sm\<lparr>isLocked := True, lockTime := Some now\<rparr>"] b
    by simp
  have "\<exists>w2. showLockScreen (unlockMethod sm1) (map_option clearWindowCaches w1) = Inr w2"
    using c by (cases w1) (auto simp add: canShowLockScreen_def clearWindowCaches_def Let_def)
  then obtain w2 where s: "showLockScreen (unlockMethod sm1) (map_option clearWindowCaches w1) = Inr w2" ..
  show ?thesis
    using assms(1) b l s by (simp del: blankSensitiveData.simps showLockScreen.simps)
qed

lemma sessionEmits_other:
  "fx = Emit MemoryCleared \<or> fx = ApiCall f \<Longrightarrow>
   sessionEmits now fx g = g\<lparr>trace := trace g @ [(OnSession, fx)]\<rparr>"
  by (auto simp add: sessionEmits_def record_effects_def)

lemma stopTracking_config:
  "timeout (fst (stopTracking w ipc t)) = timeout t
   \<and> warningTime (fst (stopTracking w ipc t)) = warningTime t
   \<and> enabled (fst (stopTracking w ipc t)) = enabled t"
  by (simp add: stopTracking_def Let_def)

lemma stopTracking_idle:
  "isTracking t \<Longrightarrow>
   \<not> isTracking (fst (stopTracking w ipc t))
   \<and> timer (fst (stopTracking w ipc t)) = None
   \<and> warningTimer (fst (stopTracking w ipc t)) = None"
  by (simp add: stopTracking_def Let_def)

lemma sessionEmits_locked_stops:
  "activityTracker (sessionEmits now (Emit (SessionLocked t)) g)
     = fst (stopTracking (globalWindow g) (hasIpcMain g) (activityTracker g))
   \<and> sessionManager (sessionEmits now (Emit (SessionLocked t)) g) = sessionManager g"
  by (simp add: sessionEmits_def record_effects_def guardStopTracking_def split_beta)

lemma guardLockSession_stops:
  assumes "\<not> isLocked (sessionManager g)" and "canShowLockScreen (globalWindow g)"
  shows "isLocked (sessionManager (guardLockSession now g))
         \<and> (\<exists>w. activityTracker (guardLockSession now g)
                   = fst (stopTracking w (hasIpcMain g) (activityTracker g)))"
proof -
  obtain sm' w' calls where
    ls: "lockSession now (sessionManager g, globalWindow g)
           = (Inr (), (sm', w'), Emit MemoryCleared # calls @ [Emit (SessionLocked now)])"
    and l: "isLocked sm'" and c: "calls = [] \<or> calls = [ApiCall ''notifySessionLock'']"
    using lockSession_completes [OF assms(1) assms(2)] by blast
  define g1 where "g1 = g\<lparr>sessionManager := sm', globalWindow := w'\<rparr>"
  define g2 where "g2 = fold (sessionEmits now) (Emit MemoryCleared # calls) g1"
  have t2: "activityTracker g2 = activityTracker g \<and> sessionManager g2 = sm' \<and> hasIpcMain g2 = hasIpcMain g"
    using c by (auto simp add: g2_def g1_def sessionEmits_other)
  have r: "guardLockSession now g = sessionEmits now (Emit (SessionLocked now)) g2"
    by (simp add: guardLockSession_def ls g2_def g1_def del: lockSession.simps)
  show ?thesis
    using sessionEmits_locked_stops [of now now g2] t2 l by (auto simp add: r)
qed

lemma idle_guard_ignores_activity:
  "\<not> isTracking (activityTracker g) \<Longrightarrow> guardHandleActivity now ev g = g"
  by (simp add: guardHandleActivity_def handleActivity_def)

lemma idle_guard_ignores_all:
  "\<not> isTracking (activityTracker g) \<Longrightarrow> guardObserveAll evs g = g"
  unfolding guardObserveAll_def
  by (induction evs) (simp_all add: idle_guard_ignores_activity)

lemma idle_guard_timers:
  "timer (activityTracker g) = None \<Longrightarrow> warningTimer (activityTracker g) = None \<Longrightarrow>
   guardTimerFires now g = g \<and> guardWarningTimerFires now g = g"
  by (simp add: guardTimerFires_def guardWarningTimerFires_def timerFires_def warningTimerFires_def)

lemma guardStartTracking_tracker:
  "activityTracker (guardStartTracking now opts g)
     = fst (startTracking now opts (globalWindow g) (hasIpcMain g) (activityTracker g))"
  by (simp add: guardStartTracking_def record_effects_def split_beta)

text \<open>
  C6, as the code has it. In a guard that is enabled, whose session is unlocked and whose
  lock screen can be shown, let the timeout callback of the running tracker run. The
  listener of \<^verbatim>\<open>inactivity-timeout\<close> locks the session and the listener of
  \<^verbatim>\<open>session-locked\<close> stops the tracker: afterwards the tracker is not tracking and holds no
  timer; any series of activity events leaves the whole guard unchanged, so nothing is armed
  again, and no timer callback does anything; \<^verbatim>\<open>configure\<close> arms nothing either. Only
  \<^verbatim>\<open>startTracking\<close> (which the guard calls after an unlock) arms the timeout again, when
  the tracker is enabled. The tracker alone does not have this property: see the
  counterexample above.
\<close>

theorem guard_timer_terminal:
  assumes "guardEnabled g" and "\<not> isLocked (sessionManager g)" and "canShowLockScreen (globalWindow g)"
    and "isTracking (activityTracker g)" and "timer (activityTracker g) = Some h"
    and "\<not> fired h" and "deadline h \<le> now"
  shows "isLocked (sessionManager (guardTimerFires now g))
         \<and> \<not> isTracking (activityTracker (guardTimerFires now g))
         \<and> timer (activityTracker (guardTimerFires now g)) = None
         \<and> warningTimer (activityTracker (guardTimerFires now g)) = None
         \<and> guardObserveAll evs (guardTimerFires now g) = guardTimerFires now g
         \<and> guardTimerFires later (guardObserveAll evs (guardTimerFires now g)) = guardTimerFires now g
         \<and> guardWarningTimerFires later (guardObserveAll evs (guardTimerFires now g)) = guardTimerFires now g
         \<and> timer (activityTracker (configure copts (guardTimerFires now g))) = None
         \<and> warningTimer (activityTracker (configure copts (guardTimerFires now g))) = None
         \<and> (enabled (activityTracker g) \<longrightarrow>
              timer (activityTracker (guardStartTracking later noOptions (guardTimerFires now g)))
                = Some \<lparr>armedAt = later, delay = timeout (activityTracker g), fired = False\<rparr>)"
proof -
  define t1 where "t1 = (activityTracker g)\<lparr>timer := Some (h\<lparr>fired := True\<rparr>)\<rparr>"
  define g1 where "g1 = record_effects OnTracker [Emit InactivityTimeout] (g\<lparr>activityTracker := t1\<rparr>)"
  define g' where "g' = guardTimerFires now g"
  have r: "g' = guardLockSession now g1"
    using assms
    by (simp add: g'_def guardTimerFires_def timerFires_def trackerEmits_def g1_def t1_def record_effects_def)
  have p: "\<not> isLocked (sessionManager g1) \<and> canShowLockScreen (globalWindow g1)
           \<and> activityTracker g1 = t1 \<and> hasIpcMain g1 = hasIpcMain g"
    using assms by (simp add: g1_def record_effects_def)
  obtain w where s: "isLocked (sessionManager g')"
      and a: "activityTracker g' = fst (stopTracking w (hasIpcMain g) t1)"
    using p guardLockSession_stops [of g1 now] r by auto
  have k: "isTracking t1 \<and> timeout t1 = timeout (activityTracker g) \<and> enabled t1 = enabled (activityTracker g)"
    using assms(4) by (simp add: t1_def)
  have i: "\<not> isTracking (activityTracker g') \<and> timer (activityTracker g') = None
           \<and> warningTimer (activityTracker g') = None"
    using k stopTracking_idle [of t1 w "hasIpcMain g"] by (simp add: a)
  have c: "timeout (activityTracker g') = timeout (activityTracker g)
           \<and> enabled (activityTracker g') = enabled (activityTracker g)"
    using k stopTracking_config [of w "hasIpcMain g" t1] by (simp add: a)
  have cf: "timer (activityTracker (configure copts g')) = None
            \<and> warningTimer (activityTracker (configure copts g')) = None"
    using i by (simp add: configure_def assignOptions_def split: option.splits)
  have st: "enabled (activityTracker g) \<longrightarrow>
              timer (activityTracker (guardStartTracking later noOptions g'))
                = Some \<lparr>armedAt = later, delay = timeout (activityTracker g), fired = False\<rparr>"
    using i c startTracking_arms [of "activityTracker g'" later noOptions "globalWindow g'" "hasIpcMain g'"]
    by (simp add: guardStartTracking_tracker noOptions_def)
  show ?thesis
    using s i cf st unfolding g'_def [symmetric]
    by (simp add: idle_guard_ignores_all idle_guard_timers)
qed

theorem guard_timer_terminal_witness:
  "guardEnabled (startedGuard ''click'') \<and> \<not> isLocked (sessionManager (startedGuard ''click''))
   \<and> timer (activityTracker (startedGuard ''click'')) = Some \<lparr>armedAt = 0, delay = 600000, fired = False\<rparr>
   \<and> isLocked (sessionManager (lockedGuard ''click''))
   \<and> \<not> isTracking (activityTracker (lockedGuard ''click''))
   \<and> timer (activityTracker (lockedGuard ''click'')) = None
   \<and> warningTimer (activityTracker (lockedGuard ''click'')) = None
   \<and> guardObserveAll [(600500, Some ''mousemove''), (700000, Some ''keydown'')] (lockedGuard ''click'')
       = lockedGuard ''click''
   \<and> timer (activityTracker (guardStartTracking 800000 noOptions (lockedGuard ''click'')))
       = Some \<lparr>armedAt = 800000, delay = 600000, fired = False\<rparr>"
  using guard_timer_terminal [of "startedGuard ''click''" "\<lparr>armedAt = 0, delay = 600000, fired = False\<rparr>" 600000
      "[(600500, Some ''mousemove''), (700000, Some ''keydown'')]" 800000 noGuardOptions]
  unfolding lockedGuard_def [symmetric]
  by (simp add: guard_defs tracker_defs eval_defs canShowLockScreen_def)

subsection \<open>Stopping the guard\<close>

lemma restore_unlocked: "\<not> isLocked sm \<Longrightarrow> \<not> isLocked (fst (restoreSensitiveData (sm, w)))"
  by (cases w) (simp_all add: Let_def)

lemma unlockSession_valid_unlocks:
  "validateUnlock penv c sm \<Longrightarrow> \<not> isLocked (fst (fst (snd (unlockSession penv now c (sm, w)))))"
  by (cases w) (simp_all add: Let_def)

lemma stopTracking_stops: "\<not> isTracking (fst (stopTracking w ipc t))"
  by (simp add: stopTracking_def Let_def)

lemma stopTracking_clears:
  "isTracking t \<Longrightarrow> timer (fst (stopTracking w ipc t)) = None \<and> warningTimer (fst (stopTracking w ipc t)) = None"
  by (simp add: stopTracking_def Let_def)

lemma guardStopTracking_frame:
  "sessionManager (guardStopTracking g) = sessionManager g
   \<and> globalWindow (guardStopTracking g) = globalWindow g
   \<and> processEnv (guardStopTracking g) = processEnv g
   \<and> guardEnabled (guardStopTracking g) = guardEnabled g
   \<and> activityTracker (guardStopTracking g) = fst (stopTracking (globalWindow g) (hasIpcMain g) (activityTracker g))"
  by (simp add: guardStopTracking_def record_effects_def split: prod.splits)

lemma guardStartTracking_frame:
  "sessionManager (guardStartTracking now opts g) = sessionManager g
   \<and> globalWindow (guardStartTracking now opts g) = globalWindow g"
  by (simp add: guardStartTracking_def record_effects_def split: prod.splits)

lemma sessionEmits_session:
  "sessionManager (sessionEmits now fx g) = sessionManager g
   \<and> globalWindow (sessionEmits now fx g) = globalWindow g"
  by (simp add: sessionEmits_def record_effects_def guardStopTracking_frame guardStartTracking_frame Let_def
      split: effect.splits emission.splits)

lemma fold_sessionEmits_session:
  "sessionManager (fold (sessionEmits now) fxs g) = sessionManager g
   \<and> globalWindow (fold (sessionEmits now) fxs g) = globalWindow g"
  by (induction fxs arbitrary: g) (simp_all add: sessionEmits_session)

lemma guardUnlockSession_session:
  "sessionManager (snd (guardUnlockSession now c g))
     = fst (fst (snd (unlockSession (processEnv g) now c (sessionManager g, globalWindow g))))
   \<and> globalWindow (snd (guardUnlockSession now c g))
     = snd (fst (snd (unlockSession (processEnv g) now c (sessionManager g, globalWindow g))))"
  by (cases "unlockSession (processEnv g) now c (sessionManager g, globalWindow g)")
     (simp add: guardUnlockSession_def fold_sessionEmits_session split_beta del: unlockSession.simps)

lemma stop_password_tracker:
  "isLocked (sessionManager g) \<Longrightarrow> unlockMethod (sessionManager g) = ''password'' \<Longrightarrow>
   activityTracker (stop now g) = fst (stopTracking (globalWindow g) (hasIpcMain g) (activityTracker g))
   \<and> trace (stop now g)
      = trace (guardStopTracking g)
        @ [(OnGuard, Emit AfkGuardStopped), (OnSession, Emit (UnlockFailed ''password'')),
           (OnGuard, Emit (UnlockFailed ''password''))]"
  by (simp add: stop_def guardUnlockSession_def guardStopTracking_frame validateUnlock_def sessionEmits_def
      record_effects_def Let_def)

text \<open>
  C10. Let the session of a guard be locked. If the unlock method is \<^verbatim>\<open>password\<close>,
  \<^verbatim>\<open>stop\<close> leaves the session manager as it was (locked, the backup not restored) and the
  window as it was, the tracker is not tracking, and \<^verbatim>\<open>unlock-failed\<close> was emitted. If the
  method is \<^verbatim>\<open>click\<close>, the session is unlocked after \<^verbatim>\<open>stop\<close>.
\<close>

theorem stop_may_leave_locked:
  "isLocked (sessionManager g) \<Longrightarrow>
   (unlockMethod (sessionManager g) = ''password'' \<longrightarrow>
      sessionManager (stop now g) = sessionManager g
      \<and> globalWindow (stop now g) = globalWindow g
      \<and> \<not> isTracking (activityTracker (stop now g))
      \<and> (OnSession, Emit (UnlockFailed ''password'')) \<in> set (trace (stop now g)))
   \<and> (unlockMethod (sessionManager g) = ''click'' \<longrightarrow> \<not> isLocked (sessionManager (stop now g)))"
proof (intro conjI impI)
  assume l: "isLocked (sessionManager g)" and m: "unlockMethod (sessionManager g) = ''password''"
  have u: "unlockSession (processEnv g) now NoCredentials (sessionManager g, globalWindow g)
           = (False, (sessionManager g, globalWindow g), [Emit (UnlockFailed ''password'')])"
    using l m by (simp add: validateUnlock_def)
  have s: "stop now g = snd (guardUnlockSession now NoCredentials
             (record_effects OnGuard [Emit AfkGuardStopped] (guardStopTracking g)))"
    using l by (simp add: stop_def guardStopTracking_frame Let_def)
  have f: "sessionManager (record_effects OnGuard [Emit AfkGuardStopped] (guardStopTracking g)) = sessionManager g
      \<and> globalWindow (record_effects OnGuard [Emit AfkGuardStopped] (guardStopTracking g)) = globalWindow g
      \<and> processEnv (record_effects OnGuard [Emit AfkGuardStopped] (guardStopTracking g)) = processEnv g"
    by (simp add: record_effects_def guardStopTracking_frame)
  show "sessionManager (stop now g) = sessionManager g"
    by (simp add: s guardUnlockSession_session f u del: unlockSession.simps)
  show "globalWindow (stop now g) = globalWindow g"
    by (simp add: s guardUnlockSession_session f u del: unlockSession.simps)
  show "\<not> isTracking (activityTracker (stop now g))"
    using stop_password_tracker [OF l m] by (simp add: stopTracking_stops)
  show "(OnSession, Emit (UnlockFailed ''password'')) \<in> set (trace (stop now g))"
    using stop_password_tracker [OF l m] by simp
next
  assume l: "isLocked (sessionManager g)" and m: "unlockMethod (sessionManager g) = ''click''"
  have s: "stop now g = snd (guardUnlockSession now NoCredentials
             (record_effects OnGuard [Emit AfkGuardStopped] (guardStopTracking g)))"
    using l by (simp add: stop_def guardStopTracking_frame Let_def)
  have f: "sessionManager (record_effects OnGuard [Emit AfkGuardStopped] (guardStopTracking g)) = sessionManager g"
    by (simp add: record_effects_def guardStopTracking_frame)
  have v: "validateUnlock (processEnv (record_effects OnGuard [Emit AfkGuardStopped] (guardStopTracking g)))
             NoCredentials (sessionManager g)"
    using m by (simp add: validateUnlock_def)
  show "\<not> isLocked (sessionManager (stop now g))"
    using unlockSession_valid_unlocks [OF v]
    by (simp add: s guardUnlockSession_session f del: unlockSession.simps)
qed

theorem stop_may_leave_locked_witness:
  "isLocked (sessionManager (lockedGuard ''password''))
   \<and> unlockMethod (sessionManager (lockedGuard ''password'')) = ''password''
   \<and> isLocked (sessionManager (stop 700000 (lockedGuard ''password'')))
   \<and> sensitiveDataBackup (sessionManager (stop 700000 (lockedGuard ''password''))) \<noteq> []
   \<and> \<not> isTracking (activityTracker (stop 700000 (lockedGuard ''password'')))
   \<and> isLocked (sessionManager (lockedGuard ''click''))
   \<and> unlockMethod (sessionManager (lockedGuard ''click'')) = ''click''
   \<and> \<not> isLocked (sessionManager (stop 700000 (lockedGuard ''click'')))"
  using stop_may_leave_locked [of "lockedGuard ''password''" 700000]
    stop_may_leave_locked [of "lockedGuard ''click''" 700000]
  by (simp add: guard_defs tracker_defs eval_defs)


subsection \<open>Which events reach the tracker\<close>

lemma set_fold_addListener: "set (fold addListener evs ls) = set evs \<union> set ls"
  by (induction evs arbitrary: ls) (auto simp add: addListener_def)

lemma activity_events_named: "ty \<in> set (getActivityEvents t) \<Longrightarrow> eventType (Some ty) = ty"
  by (auto simp add: getActivityEvents_def baseEvents_def eventType_def truthyString_def split: if_splits)

text \<open>
  C8, as the code has it. Start an enabled, idle tracker with no listener left over, in a
  renderer. The sensitivity in force at the start selects the types of document events for
  which \<^verbatim>\<open>handleActivity\<close> listens: \<^verbatim>\<open>mousedown\<close>, \<^verbatim>\<open>keydown\<close>, \<^verbatim>\<open>touchstart\<close> for
  \<^verbatim>\<open>low\<close>; these and \<^verbatim>\<open>mousemove\<close>, \<^verbatim>\<open>scroll\<close> otherwise; and for \<^verbatim>\<open>high\<close> also
  \<^verbatim>\<open>mouseup\<close>, \<^verbatim>\<open>keyup\<close>, \<^verbatim>\<open>wheel\<close>, \<^verbatim>\<open>touchend\<close>, \<^verbatim>\<open>touchmove\<close>. A document
  event of a listed type, 100ms or more after the start, gives a pulse; one of any other
  type except \<^verbatim>\<open>visibilitychange\<close> changes nothing and has no effect. The sensitivity
  filters nothing else. At every level, 100ms or more after the start: a
  \<^verbatim>\<open>visibilitychange\<close> on a visible page gives a pulse (on a hidden page it only emits
  \<^verbatim>\<open>visibility-hidden\<close>), the window's \<^verbatim>\<open>focus\<close> gives a pulse, and playing media gives
  a pulse at the audio check. In the main process, where no document event exists, every
  \<^verbatim>\<open>user-activity\<close> message gives a pulse.
\<close>

theorem sensitivity_filter:
  assumes "enabled t" and "\<not> isTracking t" and "documentListeners t = []"
  shows "set (documentListeners (fst (startTracking now opts (Some d) ipc t)))
           = set (getActivityEvents (fst (startTracking now opts (Some d) ipc t)))
         \<and> getActivityEvents (fst (startTracking now opts (Some d) ipc t))
           = (if sensitivity (fst (startTracking now opts (Some d) ipc t)) = ''low''
              then [''mousedown'', ''keydown'', ''touchstart'']
              else if sensitivity (fst (startTracking now opts (Some d) ipc t)) = ''high''
              then [''mousedown'', ''mousemove'', ''keydown'', ''scroll'', ''touchstart'',
                    ''mouseup'', ''keyup'', ''wheel'', ''touchend'', ''touchmove'']
              else [''mousedown'', ''mousemove'', ''keydown'', ''scroll'', ''touchstart''])
         \<and> (ty \<notin> set (getActivityEvents (fst (startTracking now opts (Some d) ipc t)))
              \<and> ty \<noteq> ''visibilitychange'' \<longrightarrow>
              documentEvent later ty hidden (Some d) (fst (startTracking now opts (Some d) ipc t))
                = (fst (startTracking now opts (Some d) ipc t), []))
         \<and> (ty \<in> set (getActivityEvents (fst (startTracking now opts (Some d) ipc t))) \<and> 100 \<le> later - now \<longrightarrow>
              Emit (ActivityDetected ty later)
                \<in> set (snd (documentEvent later ty hidden (Some d) (fst (startTracking now opts (Some d) ipc t)))))
         \<and> (100 \<le> later - now \<longrightarrow>
              Emit (ActivityDetected ''visibility-change'' later)
                \<in> set (snd (documentEvent later ''visibilitychange'' False (Some d)
                              (fst (startTracking now opts (Some d) ipc t)))))
         \<and> documentEvent later ''visibilitychange'' True (Some d) (fst (startTracking now opts (Some d) ipc t))
             = (fst (startTracking now opts (Some d) ipc t), [Emit VisibilityHidden])
         \<and> (100 \<le> later - now \<longrightarrow>
              Emit (ActivityDetected ''focus-change'' later)
                \<in> set (snd (focusEvent later ''focus'' hidden (Some d) (fst (startTracking now opts (Some d) ipc t)))))
         \<and> (list_ex (\<lambda>m. \<not> paused m \<and> currentTime m > 0) media \<and> 100 \<le> later - now \<longrightarrow>
              Emit (ActivityDetected ''audio-activity'' later)
                \<in> set (snd (audioCheckTick later media (Some d) (fst (startTracking now opts (Some d) ipc t)))))
         \<and> (100 \<le> later - now \<longrightarrow>
              Emit (ActivityDetected (eventType ev) later)
                \<in> set (snd (userActivityMessage later ev None (fst (startTracking now opts None True t)))))"
proof -
  define t' where "t' = fst (startTracking now opts (Some d) ipc t)"
  define tm where "tm = fst (startTracking now opts None True t)"
  have s: "isTracking t' \<and> lastActivity t' = now \<and> audioCheckInterval t'
           \<and> visibilityListener t' \<and> focusListeners t'
           \<and> set (documentListeners t') = set (getActivityEvents t')"
    using assms
    by (simp add: t'_def startTracking_def setupRendererListeners_def resetTimer_def Let_def
        set_fold_addListener getActivityEvents_def assignOptions_def)
  have sm: "isTracking tm \<and> lastActivity tm = now \<and> ipcListeners tm"
    using assms
    by (simp add: tm_def startTracking_def setupMainProcessListeners_def resetTimer_def Let_def
        assignOptions_def)
  have v: "''visibilitychange'' \<notin> set (getActivityEvents t')"
    by (simp add: getActivityEvents_def baseEvents_def)
  have e: "getActivityEvents t'
           = (if sensitivity t' = ''low'' then [''mousedown'', ''keydown'', ''touchstart'']
              else if sensitivity t' = ''high''
              then [''mousedown'', ''mousemove'', ''keydown'', ''scroll'', ''touchstart'',
                    ''mouseup'', ''keyup'', ''wheel'', ''touchend'', ''touchmove'']
              else [''mousedown'', ''mousemove'', ''keydown'', ''scroll'', ''touchstart''])"
    by (simp add: getActivityEvents_def baseEvents_def)
  have n: "ty \<notin> set (getActivityEvents t') \<and> ty \<noteq> ''visibilitychange'' \<longrightarrow>
           documentEvent later ty hidden (Some d) t' = (t', [])"
    using s by (simp add: documentEvent_def)
  have y: "ty \<in> set (getActivityEvents t') \<and> 100 \<le> later - now \<longrightarrow>
           Emit (ActivityDetected ty later) \<in> set (snd (documentEvent later ty hidden (Some d) t'))"
    using s v activity_events_named [of ty t']
    by (auto simp add: documentEvent_def handleActivity_def)
  have vv: "100 \<le> later - now \<longrightarrow>
           Emit (ActivityDetected ''visibility-change'' later)
             \<in> set (snd (documentEvent later ''visibilitychange'' False (Some d) t'))"
    using s v
    by (auto simp add: documentEvent_def visibilityEvent_def handleVisibilityChange_def handleActivity_def
        eventType_def truthyString_def)
  have vh: "documentEvent later ''visibilitychange'' True (Some d) t' = (t', [Emit VisibilityHidden])"
    using s v by (simp add: documentEvent_def visibilityEvent_def handleVisibilityChange_def)
  have f: "100 \<le> later - now \<longrightarrow>
           Emit (ActivityDetected ''focus-change'' later) \<in> set (snd (focusEvent later ''focus'' hidden (Some d) t'))"
    using s
    by (auto simp add: focusEvent_def handleFocusChange_def handleActivity_def eventType_def truthyString_def
        Let_def)
  have m: "list_ex (\<lambda>m. \<not> paused m \<and> currentTime m > 0) media \<and> 100 \<le> later - now \<longrightarrow>
           Emit (ActivityDetected ''audio-activity'' later) \<in> set (snd (audioCheckTick later media (Some d) t'))"
    using s by (auto simp add: audioCheckTick_def checkAudioActivity_def handleActivity_def eventType_def truthyString_def)
  have u: "100 \<le> later - now \<longrightarrow>
           Emit (ActivityDetected (eventType ev) later) \<in> set (snd (userActivityMessage later ev None tm))"
    using sm by (auto simp add: userActivityMessage_def handleActivity_def)
  show ?thesis
    unfolding t'_def [symmetric] tm_def [symmetric] using s e n y vv vh f m u by blast
qed

theorem sensitivity_filter_witness:
  "documentEvent 5000 ''mousemove'' False (Some (pageOf [])) lowTracker = (lowTracker, [])
   \<and> Emit (ActivityDetected ''keydown'' 5000)
       \<in> set (snd (documentEvent 5000 ''keydown'' False (Some (pageOf [])) lowTracker))
   \<and> Emit (ActivityDetected ''visibility-change'' 5000)
       \<in> set (snd (documentEvent 5000 ''visibilitychange'' False (Some (pageOf [])) lowTracker))
   \<and> Emit (ActivityDetected ''focus-change'' 5000)
       \<in> set (snd (focusEvent 5000 ''focus'' False (Some (pageOf [])) lowTracker))
   \<and> Emit (ActivityDetected ''audio-activity'' 5000)
       \<in> set (snd (audioCheckTick 5000 [playing] (Some (pageOf [])) lowTracker))"
  using sensitivity_filter [of "newActivityTracker plainEnv 0
          \<lparr>optTimeout = None, optWarningTime = None, optSensitivity = Some ''low'', optEnabled = None\<rparr>"
      0 noOptions "pageOf []" False "''mousemove''" 5000 False "[playing]" None]
    sensitivity_filter [of "newActivityTracker plainEnv 0
          \<lparr>optTimeout = None, optWarningTime = None, optSensitivity = Some ''low'', optEnabled = None\<rparr>"
      0 noOptions "pageOf []" False "''keydown''" 5000 False "[playing]" None]
  unfolding lowTracker_def [symmetric]
  by (simp add: lowTracker_def playing_def tracker_defs)

subsection \<open>The host through blanking and restoring\<close>

lemma sameHost_refl: "sameHost d d"
  by (simp add: sameHost_def)

lemma blankElement_host: "sameHost d0 (snd st) \<Longrightarrow> sameHost d0 (snd (blankElement now j st))"
  by (cases st) (simp add: sameHost_def Let_def)

lemma fold_blankElement_host:
  "sameHost d0 (snd st) \<Longrightarrow> sameHost d0 (snd (fold (blankElement now) js st))"
  by (induction js arbitrary: st) (simp_all add: blankElement_host del: blankElement.simps)

lemma blankSelector_host: "sameHost d0 (snd st) \<Longrightarrow> sameHost d0 (snd (blankSelector now s st))"
  using fold_blankElement_host [of d0 st now "querySelectorAll s (snd st)"] by (cases st) simp

lemma fold_blankSelector_host:
  "sameHost d0 (snd st) \<Longrightarrow> sameHost d0 (snd (fold (blankSelector now) ss st))"
  by (induction ss arbitrary: st) (simp_all add: blankSelector_host del: blankSelector.simps)

lemma restoreElement_host: "sameHost d0 d \<Longrightarrow> sameHost d0 (restoreElement b d)"
  by (simp add: sameHost_def restoreElement_def Let_def)

lemma fold_restoreElement_host: "sameHost d0 d \<Longrightarrow> sameHost d0 (fold restoreElement bs d)"
  by (induction bs arbitrary: d) (simp_all add: restoreElement_host)

subsection \<open>The node lists of one call\<close>

text \<open>
  Blanking changes no tag, no attachment and, for the selectors of the source, no match:
  the node lists of one call are those of the document before the call.
\<close>

lemma blankElement_shape:
  "length (elements (snd (blankElement now j (sm, d)))) = length (elements d)
   \<and> hasParentNode (elements (snd (blankElement now j (sm, d))) ! k) = hasParentNode (elements d ! k)
   \<and> tagName (elements (snd (blankElement now j (sm, d))) ! k) = tagName (elements d ! k)"
  by (cases "j < length (elements d)"; cases "k = j") (simp_all add: Let_def addClass_def list_update_beyond)

lemma blankElement_matches:
  "sel \<noteq> HasClass ''afk-sensitive-blanked'' \<Longrightarrow>
   matches sel (elements (snd (blankElement now j (sm, d))) ! k) = matches sel (elements d ! k)"
  by (cases "j < length (elements d)"; cases "k = j"; cases sel)
     (auto simp add: Let_def addClass_def classList_add_def list_update_beyond)

lemma blankElement_query:
  "sel \<noteq> HasClass ''afk-sensitive-blanked'' \<Longrightarrow>
   querySelectorAll sel (snd (blankElement now j st)) = querySelectorAll sel (snd st)"
proof -
  assume s: "sel \<noteq> HasClass ''afk-sensitive-blanked''"
  obtain sm d where st: "st = (sm, d)" by (cases st)
  show ?thesis
    unfolding st querySelectorAll_def
    using blankElement_shape [of now j sm d] blankElement_matches [OF s, of now j sm d]
    by (simp del: blankElement.simps)
qed

lemma fold_blankElement_query:
  "sel \<noteq> HasClass ''afk-sensitive-blanked'' \<Longrightarrow>
   querySelectorAll sel (snd (fold (blankElement now) js st)) = querySelectorAll sel (snd st)"
  by (induction js arbitrary: st) (simp_all add: blankElement_query del: blankElement.simps)

lemma fold_blankSelector_flat:
  "\<forall>s\<in>set ss. s \<noteq> HasClass ''afk-sensitive-blanked'' \<Longrightarrow>
   fold (blankSelector now) ss st
     = fold (blankElement now) (concat (map (\<lambda>s. querySelectorAll s (snd st)) ss)) st"
proof (induction ss arbitrary: st)
  case Nil
  then show ?case by simp
next
  case (Cons s ss)
  obtain sm d where st: "st = (sm, d)" by (cases st)
  define st1 where "st1 = fold (blankElement now) (querySelectorAll s d) (sm, d)"
  have q: "\<forall>s'\<in>set ss. querySelectorAll s' (snd st1) = querySelectorAll s' d"
    using Cons.prems fold_blankElement_query [of _ now "querySelectorAll s d" "(sm, d)"]
    by (simp add: st1_def)
  have "fold (blankSelector now) (s # ss) st = fold (blankSelector now) ss st1"
    by (simp add: st st1_def)
  also have "\<dots> = fold (blankElement now) (concat (map (\<lambda>s. querySelectorAll s (snd st1)) ss)) st1"
    using Cons.IH [of st1] Cons.prems by simp
  also have "map (\<lambda>s. querySelectorAll s (snd st1)) ss = map (\<lambda>s. querySelectorAll s d) ss"
    using q by simp
  finally show ?case
    by (simp add: st st1_def del: blankElement.simps)
qed

lemma sensitiveSelectors_stable: "\<forall>s\<in>set sensitiveSelectors. s \<noteq> HasClass ''afk-sensitive-blanked''"
  by (simp add: sensitiveSelectors_def)

text \<open>One call of \<^verbatim>\<open>blankSensitiveData\<close> as one pass over the elements it visits.\<close>

lemma blankSensitiveData_flat:
  assumes "blankSensitiveData now (sm, Some d) = (sm1, Some d1)"
  shows "\<exists>d1'. fold (blankElement now) (concat (map (\<lambda>s. querySelectorAll s d) sensitiveSelectors)) (sm, d)
                  = (sm1, d1')
              \<and> elements d1 = elements d1' \<and> randomCalls d1 = randomCalls d1' \<and> sameHost d1' d1"
proof -
  obtain d1' where f: "fold (blankSelector now) sensitiveSelectors (sm, d) = (sm1, d1')"
    and e: "elements d1 = elements d1'" and c: "randomCalls d1 = randomCalls d1'" and h: "sameHost d1' d1"
    using assms by (auto simp add: sameHost_def split: prod.splits)
  have "fold (blankElement now) (concat (map (\<lambda>s. querySelectorAll s d) sensitiveSelectors)) (sm, d)
          = (sm1, d1')"
    using fold_blankSelector_flat [OF sensitiveSelectors_stable, of now "(sm, d)"] f by simp
  then show ?thesis
    using e c h by blast
qed

subsection \<open>New keys\<close>

text \<open>\<^verbatim>\<open>Map.set\<close> adds at most one entry, and when it adds one, it is the last.\<close>

lemma map_set_length: "length (map_set k v m) \<le> Suc (length m)"
  by (induction m) auto

lemma map_set_append: "length (map_set k v m) = Suc (length m) \<Longrightarrow> map_set k v m = m @ [(k, v)]"
  by (induction m) (auto split: if_splits)

lemma map_set_new: "k \<notin> fst ` set m \<Longrightarrow> map_set k v m = m @ [(k, v)]"
  by (induction m) auto

text \<open>A key ends in the suffix it was made with, when that holds no underscore.\<close>

lemma keySuffix_generated:
  "CHR ''_'' \<notin> set rnd \<Longrightarrow> keySuffix (generateElementId e now rnd) = rnd"
proof -
  assume a: "CHR ''_'' \<notin> set rnd"
  have "generateElementId e now rnd
        = (''afk_'' @ tagName e @ ''_'' @ className e @ ''_'' @ numberToString now) @ CHR ''_'' # rnd"
    by (simp add: generateElementId_def)
  then have "rev (generateElementId e now rnd)
             = rev rnd @ CHR ''_'' # rev (''afk_'' @ tagName e @ ''_'' @ className e @ ''_'' @ numberToString now)"
    by simp
  moreover have "takeWhile (\<lambda>c. c \<noteq> CHR ''_'') (rev rnd @ CHR ''_'' # ys) = rev rnd" for ys
  proof -
    have "takeWhile (\<lambda>c. c \<noteq> CHR ''_'') (rev rnd @ CHR ''_'' # ys)
          = rev rnd @ takeWhile (\<lambda>c. c \<noteq> CHR ''_'') (CHR ''_'' # ys)"
      using a by (intro takeWhile_append2) auto
    then show ?thesis by simp
  qed
  ultimately show ?thesis
    by (simp add: keySuffix_def)
qed

lemma blankElement_slack: "slack (sm, d) \<le> slack (blankElement now j (sm, d))"
  using map_set_length [of "generateElementId (elements d ! j) now (mathRandom d (randomCalls d))"
      "\<lparr>elementRef = j, originalContent = innerHTML (elements d ! j), originalValue = val (elements d ! j),
        originalText = textContent (elements d ! j)\<rparr>" "sensitiveDataBackup sm"]
  by (simp add: slack_def Let_def)

text \<open>
  When the suffixes drawn are pairwise distinct and hold no underscore, every snapshot is
  stored under a new key: the backup grows by one entry with each.
\<close>

lemma blankElement_drawn:
  assumes dr: "drawn c0 (sm, d)"
    and inj: "inj_on (mathRandom d) {c0 ..< Suc (randomCalls d)}"
    and plain: "\<forall>k. CHR ''_'' \<notin> set (mathRandom d k)"
  shows "drawn c0 (blankElement now j (sm, d)) \<and> slack (blankElement now j (sm, d)) = slack (sm, d)"
proof -
  define key where "key = generateElementId (elements d ! j) now (mathRandom d (randomCalls d))"
  define b where "b = \<lparr>elementRef = j, originalContent = innerHTML (elements d ! j),
                       originalValue = val (elements d ! j), originalText = textContent (elements d ! j)\<rparr>"
  have sfx: "keySuffix key = mathRandom d (randomCalls d)"
    unfolding key_def using plain by (simp add: keySuffix_generated)
  have new: "key \<notin> fst ` set (sensitiveDataBackup sm)"
  proof
    assume "key \<in> fst ` set (sensitiveDataBackup sm)"
    then obtain kv where kv: "kv \<in> set (sensitiveDataBackup sm)" and k: "fst kv = key" by auto
    obtain k' where k': "c0 \<le> k'" "k' < randomCalls d" "keySuffix (fst kv) = mathRandom d k'"
      using dr kv by (auto simp add: drawn_def)
    have "mathRandom d k' = mathRandom d (randomCalls d)"
      using k' k sfx by simp
    moreover have "k' \<in> {c0 ..< Suc (randomCalls d)}" "randomCalls d \<in> {c0 ..< Suc (randomCalls d)}"
      using k' by simp_all
    ultimately have "k' = randomCalls d"
      using inj by (meson inj_onD)
    then show False using k' by simp
  qed
  have bk: "sensitiveDataBackup (fst (blankElement now j (sm, d))) = sensitiveDataBackup sm @ [(key, b)]"
    using map_set_new [OF new, of b] by (simp add: Let_def key_def b_def)
  have rc: "randomCalls (snd (blankElement now j (sm, d))) = Suc (randomCalls d)"
    and mr: "mathRandom (snd (blankElement now j (sm, d))) = mathRandom d"
    by (simp_all add: Let_def)
  have "drawn c0 (blankElement now j (sm, d))"
    unfolding drawn_def bk rc mr
    using dr sfx by (auto simp add: drawn_def less_Suc_eq intro: exI [of _ "randomCalls d"])
  moreover have "slack (blankElement now j (sm, d)) = slack (sm, d)"
    unfolding slack_def bk rc by simp
  ultimately show ?thesis by simp
qed

lemma fold_blankElement_drawn:
  assumes "drawn c0 st"
    and "inj_on (mathRandom (snd st)) {c0 ..< randomCalls (snd st) + length js}"
    and "\<forall>k. CHR ''_'' \<notin> set (mathRandom (snd st) k)"
  shows "drawn c0 (fold (blankElement now) js st)
         \<and> slack (fold (blankElement now) js st) = slack st"
  using assms
proof (induction js arbitrary: st)
  case Nil
  then show ?case by simp
next
  case (Cons j js)
  obtain sm d where st: "st = (sm, d)" by (cases st)
  define st1 where "st1 = blankElement now j (sm, d)"
  have rc: "randomCalls (snd st1) = Suc (randomCalls d)" and mr: "mathRandom (snd st1) = mathRandom d"
    by (simp_all add: st1_def Let_def)
  have i1: "inj_on (mathRandom d) {c0 ..< Suc (randomCalls d)}"
    using Cons.prems(2) st by (auto intro: inj_on_subset)
  have s1: "drawn c0 st1 \<and> slack st1 = slack (sm, d)"
    unfolding st1_def using Cons.prems(1,3) st i1 by (intro blankElement_drawn) simp_all
  have i2: "inj_on (mathRandom (snd st1)) {c0 ..< randomCalls (snd st1) + length js}"
    using Cons.prems(2) st by (simp add: rc mr)
  have p2: "\<forall>k. CHR ''_'' \<notin> set (mathRandom (snd st1) k)"
    using Cons.prems(3) st by (simp add: mr)
  show ?case
    using Cons.IH [of st1] s1 i2 p2 st st1_def by (simp del: blankElement.simps)
qed

lemma fold_blankElement_calls:
  "randomCalls (snd (fold (blankElement now) js st)) = randomCalls (snd st) + length js"
proof (induction js arbitrary: st)
  case Nil
  then show ?case by simp
next
  case (Cons j js)
  obtain sm d where st: "st = (sm, d)" by (cases st)
  have "randomCalls (snd (blankElement now j (sm, d))) = Suc (randomCalls d)"
    by (simp add: Let_def)
  then show ?case
    using Cons.IH [of "blankElement now j (sm, d)"] st by (simp del: blankElement.simps)
qed

lemma blankSensitiveData_drawn:
  assumes b: "blankSensitiveData now (sm, Some d) = (sm1, Some d1)"
    and dr: "drawn c0 (sm, d)"
    and inj: "inj_on (mathRandom d) {c0 ..< randomCalls d1}"
    and plain: "\<forall>k. CHR ''_'' \<notin> set (mathRandom d k)"
  shows "drawn c0 (sm1, d1) \<and> slack (sm1, d1) = slack (sm, d)
         \<and> randomCalls d \<le> randomCalls d1 \<and> sameHost d d1"
proof -
  define js where "js = concat (map (\<lambda>s. querySelectorAll s d) sensitiveSelectors)"
  obtain d1' where f: "fold (blankElement now) js (sm, d) = (sm1, d1')"
    and c: "randomCalls d1 = randomCalls d1'" and h: "sameHost d1' d1"
    using blankSensitiveData_flat [OF b] by (auto simp add: js_def)
  have n: "randomCalls d1' = randomCalls d + length js"
    using fold_blankElement_calls [of now js "(sm, d)"] f by simp
  have "drawn c0 (fold (blankElement now) js (sm, d)) \<and> slack (fold (blankElement now) js (sm, d)) = slack (sm, d)"
    using dr inj plain c n by (intro fold_blankElement_drawn) simp_all
  then have d': "drawn c0 (sm1, d1')" and s': "slack (sm1, d1') = slack (sm, d)"
    using f by simp_all
  have h': "sameHost d d1'"
    using fold_blankElement_host [of d "(sm, d)" now js] f by (simp add: sameHost_refl)
  have hh: "sameHost d d1"
    using h h' by (simp add: sameHost_def)
  have "drawn c0 (sm1, d1)"
    using d' c h by (simp add: drawn_def sameHost_def)
  moreover have "slack (sm1, d1) = slack (sm, d)"
    using s' c by (simp add: slack_def)
  ultimately show ?thesis
    using c n hh by simp
qed

subsection \<open>Blanking twice\<close>

lemma lastFor_snoc: "lastFor i (bs @ [b]) = (if elementRef b = i then Some b else lastFor i bs)"
  by (induction bs) (auto split: option.splits)





lemma blankElement_fresh:
  assumes "slack (blankElement now j (sm, d)) = slack (sm, d)"
  shows "map snd (sensitiveDataBackup (fst (blankElement now j (sm, d))))
         = map snd (sensitiveDataBackup sm)
           @ [\<lparr>elementRef = j, originalContent = innerHTML (elements d ! j),
               originalValue = val (elements d ! j), originalText = textContent (elements d ! j)\<rparr>]"
proof -
  have "length (map_set (generateElementId (elements d ! j) now (mathRandom d (randomCalls d)))
          \<lparr>elementRef = j, originalContent = innerHTML (elements d ! j), originalValue = val (elements d ! j),
            originalText = textContent (elements d ! j)\<rparr> (sensitiveDataBackup sm))
        = Suc (length (sensitiveDataBackup sm))"
    using assms by (simp add: slack_def Let_def)
  then show ?thesis
    by (simp add: Let_def map_set_append)
qed





lemma fold_blankElement_slack: "slack st \<le> slack (fold (blankElement now) js st)"
proof (induction js arbitrary: st)
  case Nil
  then show ?case by simp
next
  case (Cons j js)
  obtain sm d where st: "st = (sm, d)" by (cases st)
  have "slack st \<le> slack (blankElement now j st)"
    using blankElement_slack st by simp
  also have "\<dots> \<le> slack (fold (blankElement now) js (blankElement now j st))"
    by (rule Cons.IH)
  finally show ?case by (simp del: blankElement.simps)
qed


lemma count_distinct: "distinct xs \<Longrightarrow> count_list xs x = (if x \<in> set xs then 1 else 0)"
  by (induction xs) auto

lemma count_querySelectorAll:
  "count_list (querySelectorAll s d) i = (if i \<in> set (querySelectorAll s d) then 1 else 0)"
  by (rule count_distinct) (simp add: querySelectorAll_def)

lemma count_tasks:
  "count_list (concat (map (\<lambda>s. querySelectorAll s d) ss)) i
     = length (filter (\<lambda>s. i \<in> set (querySelectorAll s d)) ss)"
  by (induction ss) (simp_all add: count_querySelectorAll)


text \<open>Restoring leaves in an element what it reads back from its last entry.\<close>

lemma restoreElement_attached: "attachedAt i inp d0 d \<Longrightarrow> attachedAt i inp d0 (restoreElement b d)"
  by (cases "elementRef b = i")
     (auto simp add: attachedAt_def restoreElement_def removeClass_def sameHost_def Let_def)

lemma restoreElement_other:
  "elementRef b \<noteq> i \<Longrightarrow> elements (restoreElement b d) ! i = elements d ! i"
  by (simp add: restoreElement_def Let_def)

lemma restoreElement_writes:
  "elementRef b = i \<Longrightarrow> attachedAt i inp d0 d \<Longrightarrow>
   content (elements (restoreElement b d) ! i)
     = readBack d0 i inp (if inp then originalValue b else originalContent b)"
  by (auto simp add: attachedAt_def restoreElement_def content_def readBack_def removeClass_def
      sameHost_def Let_def)

lemma fold_restoreElement_attached:
  "attachedAt i inp d0 d \<Longrightarrow> attachedAt i inp d0 (fold restoreElement bs d)"
  by (induction bs arbitrary: d) (simp_all add: restoreElement_attached)

lemma fold_restoreElement_untouched:
  "lastFor i bs = None \<Longrightarrow> elements (fold restoreElement bs d) ! i = elements d ! i"
  by (induction bs arbitrary: d) (auto simp add: restoreElement_other split: option.splits if_splits)

lemma fold_restoreElement_content:
  "lastFor i bs = Some b \<Longrightarrow> attachedAt i inp d0 d \<Longrightarrow>
   content (elements (fold restoreElement bs d) ! i)
     = readBack d0 i inp (if inp then originalValue b else originalContent b)"
proof (induction bs arbitrary: d)
  case Nil
  then show ?case by simp
next
  case (Cons b0 bs)
  show ?case
  proof (cases "lastFor i bs")
    case None
    with Cons.prems(1) have e: "elementRef b0 = i" and b: "b = b0"
      by (auto split: if_splits)
    show ?thesis
      using fold_restoreElement_untouched [OF None, of "restoreElement b0 d"]
        restoreElement_writes [OF e Cons.prems(2)] b by simp
  next
    case (Some b')
    with Cons.prems(1) have "lastFor i bs = Some b" by simp
    then show ?thesis
      using Cons.IH [of "restoreElement b0 d"] Cons.prems(2) restoreElement_attached by simp
  qed
qed

lemma protected_attached: "protectedAt i sel inp d0 d \<Longrightarrow> attachedAt i inp d0 d"
  by (simp add: protectedAt_def attachedAt_def)






subsection \<open>Blank and restore on overlapping selectors\<close>

text \<open>An element visited at most once, with new keys throughout, keeps or gets one entry of its own.\<close>

lemma blankElement_other:
  "j \<noteq> i \<Longrightarrow> elements (snd (blankElement now j (sm, d))) ! i = elements d ! i"
  by (simp add: Let_def)

lemma blankElement_untouched:
  assumes "slack (blankElement now j (sm, d)) = slack (sm, d)" and "j \<noteq> i"
    and "untouchedAt i e0 (sm, d)"
  shows "untouchedAt i e0 (blankElement now j (sm, d))"
  using assms(2,3)
  by (simp add: untouchedAt_def blankElement_fresh [OF assms(1)] blankElement_other lastFor_snoc
      del: blankElement.simps)

lemma blankElement_captured:
  assumes "slack (blankElement now j (sm, d)) = slack (sm, d)" and "j \<noteq> i"
    and "capturedAt i e0 (sm, d)"
  shows "capturedAt i e0 (blankElement now j (sm, d))"
  using assms(2,3) blankElement_shape [of now j sm d i]
  by (simp add: capturedAt_def blankElement_fresh [OF assms(1)] lastFor_snoc
      del: blankElement.simps)

lemma blankElement_captures:
  assumes "slack (blankElement now i (sm, d)) = slack (sm, d)"
    and "untouchedAt i e0 (sm, d)" and "i < length (elements d)" and "hasParentNode e0"
  shows "capturedAt i e0 (blankElement now i (sm, d))"
  using assms(2-4) blankElement_shape [of now i sm d i]
  by (auto simp add: capturedAt_def untouchedAt_def blankElement_fresh [OF assms(1)] lastFor_snoc
      simp del: blankElement.simps)

lemma fold_blankElement_round:
  assumes "slack (fold (blankElement now) js st) = slack st"
  shows "(untouchedAt i e0 st \<and> i \<notin> set js \<longrightarrow> untouchedAt i e0 (fold (blankElement now) js st))
       \<and> (capturedAt i e0 st \<and> i \<notin> set js \<longrightarrow> capturedAt i e0 (fold (blankElement now) js st))
       \<and> (untouchedAt i e0 st \<and> count_list js i = 1 \<and> i < length (elements (snd st)) \<and> hasParentNode e0
            \<longrightarrow> capturedAt i e0 (fold (blankElement now) js st))"
  using assms
proof (induction js arbitrary: st)
  case Nil
  then show ?case by simp
next
  case (Cons j js)
  obtain sm d where st: "st = (sm, d)" by (cases st)
  define st1 where "st1 = blankElement now j (sm, d)"
  have le1: "slack st \<le> slack st1"
    using blankElement_slack st st1_def by simp
  have le2: "slack st1 \<le> slack (fold (blankElement now) js st1)"
    by (rule fold_blankElement_slack)
  have tot: "slack (fold (blankElement now) js st1) = slack st"
    using Cons.prems st st1_def by (simp del: blankElement.simps)
  have f1: "slack (blankElement now j (sm, d)) = slack (sm, d)"
    and f2: "slack (fold (blankElement now) js st1) = slack st1"
    using le1 le2 tot st st1_def by simp_all
  have len: "length (elements (snd st1)) = length (elements d)"
    using blankElement_shape [of now j sm d] by (simp add: st1_def del: blankElement.simps)
  note ih = Cons.IH [OF f2]
  have e: "fold (blankElement now) (j # js) st = fold (blankElement now) js st1"
    by (simp add: st st1_def del: blankElement.simps)
  show ?case
    unfolding e
  proof (intro conjI impI)
    assume a: "untouchedAt i e0 st \<and> i \<notin> set (j # js)"
    then have "untouchedAt i e0 st1"
      using blankElement_untouched [OF f1, of i e0] st st1_def by simp
    then show "untouchedAt i e0 (fold (blankElement now) js st1)"
      using ih a by simp
  next
    assume a: "capturedAt i e0 st \<and> i \<notin> set (j # js)"
    then have "capturedAt i e0 st1"
      using blankElement_captured [OF f1, of i e0] st st1_def by simp
    then show "capturedAt i e0 (fold (blankElement now) js st1)"
      using ih a by simp
  next
    assume a: "untouchedAt i e0 st \<and> count_list (j # js) i = 1 \<and> i < length (elements (snd st))
               \<and> hasParentNode e0"
    show "capturedAt i e0 (fold (blankElement now) js st1)"
    proof (cases "j = i")
      case True
      then have n: "i \<notin> set js"
        using a by (simp add: count_list_0_iff)
      have "capturedAt i e0 st1"
        using blankElement_captures [of now i sm d e0] f1 a st True st1_def by simp
      then show ?thesis
        using ih n by simp
    next
      case False
      then have c: "count_list js i = 1" using a by simp
      have "untouchedAt i e0 st1"
        using blankElement_untouched [OF f1, of i e0] a False st st1_def by simp
      then show ?thesis
        using ih c a len st by simp
    qed
  qed
qed

lemma filter_length_mono:
  "(\<And>x. x \<in> set xs \<Longrightarrow> P x \<Longrightarrow> Q x) \<Longrightarrow> length (filter P xs) \<le> length (filter Q xs)"
  by (induction xs) auto

text \<open>
  Where the round trip does hold: on a manager with an empty backup, an element that at
  most one selector matches gets back its content, when the suffixes drawn are pairwise
  distinct and the element reads its content back as it is assigned.
\<close>

lemma round_trip_single_selector:
  assumes empty: "sensitiveDataBackup sm = []"
    and len: "i < length (elements d)"
    and unique: "length (filter (\<lambda>s. matches s (elements d ! i)) sensitiveSelectors) \<le> 1"
    and b: "blankSensitiveData now (sm, Some d) = (sm1, Some d1)"
    and r: "restoreSensitiveData (sm1, Some d1) = (sm2, Some d2)"
    and distinct: "inj_on (mathRandom d) {randomCalls d ..< randomCalls d1}"
    and plain: "\<forall>k. CHR ''_'' \<notin> set (mathRandom d k)"
    and same: "reread d i (content (elements d ! i)) = content (elements d ! i)"
  shows "content (elements d2 ! i) = content (elements d ! i)"
proof -
  define e0 where "e0 = elements d ! i"
  define js where "js = concat (map (\<lambda>s. querySelectorAll s d) sensitiveSelectors)"
  obtain d1' where flat: "fold (blankElement now) js (sm, d) = (sm1, d1')"
    and e1: "elements d1 = elements d1'" and c1: "randomCalls d1 = randomCalls d1'"
    using blankSensitiveData_flat [OF b] by (auto simp add: js_def)
  have dr0: "drawn (randomCalls d) (sm, d)"
    using empty by (simp add: drawn_def)
  have bd: "slack (sm1, d1) = slack (sm, d) \<and> sameHost d d1"
    using blankSensitiveData_drawn [OF b dr0 distinct plain] by simp
  have s: "slack (fold (blankElement now) js (sm, d)) = slack (sm, d)"
    using bd flat c1 by (simp add: slack_def)
  have u: "untouchedAt i e0 (sm, d)"
    using empty by (simp add: untouchedAt_def e0_def)
  have "count_list js i = length (filter (\<lambda>s. i \<in> set (querySelectorAll s d)) sensitiveSelectors)"
    by (simp add: js_def count_tasks)
  also have "\<dots> \<le> length (filter (\<lambda>s. matches s (elements d ! i)) sensitiveSelectors)"
    by (rule filter_length_mono) (simp add: querySelectorAll_def)
  finally have c: "count_list js i \<le> 1"
    using unique by simp
  have e2: "elements d2 = elements (fold restoreElement (map snd (sensitiveDataBackup sm1)) d1)"
    using r by (auto simp add: Let_def)
  show ?thesis
  proof (cases "count_list js i = 0")
    case True
    then have "i \<notin> set js" by (simp add: count_list_0_iff)
    then have "untouchedAt i e0 (sm1, d1')"
      using fold_blankElement_round [OF s, of i e0] u flat by simp
    then have "elements d1 ! i = e0" and "lastFor i (map snd (sensitiveDataBackup sm1)) = None"
      using e1 by (simp_all add: untouchedAt_def)
    then show ?thesis
      using fold_restoreElement_untouched [of i "map snd (sensitiveDataBackup sm1)" d1] e2
      by (simp add: e0_def)
  next
    case False
    then have one: "count_list js i = 1" using c by simp
    then have "i \<in> set js" using count_list_0_iff [of js i] by simp
    then have h: "hasParentNode e0"
      by (auto simp add: js_def querySelectorAll_def e0_def)
    have "capturedAt i e0 (sm1, d1')"
      using fold_blankElement_round [OF s, of i e0] u one len h flat by simp
    then obtain b where l: "lastFor i (map snd (sensitiveDataBackup sm1)) = Some b"
      and oc: "originalContent b = innerHTML e0" and ov: "originalValue b = val e0"
      and a: "attachedAt i (tagName e0 = ''INPUT'') d d1"
      using e1 bd by (auto simp add: capturedAt_def attachedAt_def)
    have "content (elements d2 ! i)
          = readBack d i (tagName e0 = ''INPUT'') (if tagName e0 = ''INPUT'' then val e0 else innerHTML e0)"
      using fold_restoreElement_content [OF l a] e2 oc ov by simp
    also have "\<dots> = reread d i (content (elements d ! i))"
      by (simp add: reread_def content_def e0_def)
    finally show ?thesis
      using same by simp
  qed
qed

text \<open>
  C2 at an element that matches two selectors (classes \<^verbatim>\<open>api-key\<close> and \<^verbatim>\<open>user-token\<close>)
  with content \<^verbatim>\<open>secret\<close>: one blank takes two snapshots of it, the second of the masked
  content, and the restore that follows leaves the placeholder in the element.
\<close>

theorem round_trip_lost_on_overlap:
  "map content (elements twoClassPage) = [''secret'']
   \<and> map_option (\<lambda>d. map content (elements d))
        (snd (restoreSensitiveData (blankSensitiveData 1 (newSessionManager plainEnv None, Some twoClassPage))))
       = Some [blankedSpan]
   \<and> blankedSpan \<noteq> ''secret''"
  by (simp add: region_defs eval_defs blankedSpan_def)

end
